theory Spec2Isabelle
  imports Complex_Main
begin

section \<open>JavaScript values used by App.vue\<close>

text \<open>
  Strings are lists of code units. The development covers the code units below 256
  (Latin-1), which is what \<^typ>\<open>char\<close> holds; every keyword, digit and separator
  the program looks for lies in that range.
\<close>

text \<open>
  A JavaScript number: a finite value, one of the two infinities, or NaN. Finite
  doubles are read as the reals they denote; \<open>Math.min\<close>, \<open>Math.max\<close> and the
  comparisons never round, so nothing is lost for the functions below. The two zeros
  are identified (no bound of the program is zero).
\<close>

datatype jsnum = NaN | NegInf | Fin real | PosInf

text \<open>\<open>a <= b\<close> on numbers: false as soon as one side is NaN.\<close>

fun js_le :: "jsnum \<Rightarrow> jsnum \<Rightarrow> bool" where
  "js_le NaN _ = False"
| "js_le _ NaN = False"
| "js_le NegInf _ = True"
| "js_le _ PosInf = True"
| "js_le (Fin x) (Fin y) = (x \<le> y)"
| "js_le (Fin x) NegInf = False"
| "js_le PosInf (Fin y) = False"
| "js_le PosInf NegInf = False"

text \<open>\<open>a > 0\<close> on numbers.\<close>

fun js_gt0 :: "jsnum \<Rightarrow> bool" where
  "js_gt0 NaN = False"
| "js_gt0 NegInf = False"
| "js_gt0 (Fin x) = (0 < x)"
| "js_gt0 PosInf = True"

text \<open>\<open>Math.max\<close> and \<open>Math.min\<close> of two numbers: NaN if either argument is NaN.\<close>

fun Math_max :: "jsnum \<Rightarrow> jsnum \<Rightarrow> jsnum" where
  "Math_max NaN _ = NaN"
| "Math_max _ NaN = NaN"
| "Math_max PosInf _ = PosInf"
| "Math_max _ PosInf = PosInf"
| "Math_max NegInf b = b"
| "Math_max a NegInf = a"
| "Math_max (Fin x) (Fin y) = Fin (max x y)"

fun Math_min :: "jsnum \<Rightarrow> jsnum \<Rightarrow> jsnum" where
  "Math_min NaN _ = NaN"
| "Math_min _ NaN = NaN"
| "Math_min NegInf _ = NegInf"
| "Math_min _ NegInf = NegInf"
| "Math_min PosInf b = b"
| "Math_min a PosInf = a"
| "Math_min (Fin x) (Fin y) = Fin (min x y)"

subsection \<open>Strings\<close>

text \<open>\<open>String.prototype.toLowerCase\<close> on Latin-1 code units: A-Z and the accented
  capitals 0xC0-0xDE (but not the multiplication sign 0xD7) move up by 32.\<close>

definition toLowerCase_char :: "char \<Rightarrow> char" where
  "toLowerCase_char c =
     (let n = (of_char c :: nat) in
      if (65 \<le> n \<and> n \<le> 90) \<or> (192 \<le> n \<and> n \<le> 214) \<or> (216 \<le> n \<and> n \<le> 222)
      then char_of (n + 32) else c)"

definition toLowerCase :: "string \<Rightarrow> string" where
  "toLowerCase s = map toLowerCase_char s"

text \<open>\<open>s.startsWith(k)\<close> and \<open>s.includes(k)\<close>: \<open>k\<close> occurs at the front of \<open>s\<close>,
  respectively at some position of \<open>s\<close>.\<close>

fun startsWith :: "string \<Rightarrow> string \<Rightarrow> bool" where
  "startsWith s [] = True"
| "startsWith [] (k # ks) = False"
| "startsWith (c # cs) (k # ks) = (c = k \<and> startsWith cs ks)"

fun includes_str :: "string \<Rightarrow> string \<Rightarrow> bool" where
  "includes_str [] k = (k = [])"
| "includes_str (c # cs) k = (startsWith (c # cs) k \<or> includes_str cs k)"

section \<open>Crime categories\<close>

datatype category = violent | property | other

definition violentKeywords :: "string list" where
  "violentKeywords =
     [''murder'', ''manslaughter'', ''rape'', ''robbery'', ''assault'', ''kidnap'',
      ''homicide'', ''weapon'', ''threat'', ''domestic'']"

definition propertyKeywords :: "string list" where
  "propertyKeywords =
     [''burglary'', ''theft'', ''robbery'', ''arson'', ''vandalism'',
      ''damage to property'', ''property'', ''motor vehicle theft'', ''shoplifting'',
      ''stolen'', ''fraud'', ''forgery'']"

text \<open>
  \<open>categorizeCrime(incidentType, incidentText)\<close>. The text argument may be missing
  (null or undefined) or empty, in which case \<open>incidentText || ''\<close> is the empty string;
  the template literal puts one space between the two parts.
\<close>

definition categorizeCrime :: "string \<Rightarrow> string option \<Rightarrow> category" where
  "categorizeCrime incidentType incidentText =
     (let text = toLowerCase
            (incidentType @ '' '' @ (case incidentText of None \<Rightarrow> '''' | Some t \<Rightarrow> t))
      in if list_ex (\<lambda>k. includes_str text k) violentKeywords then violent
         else if list_ex (\<lambda>k. includes_str text k) propertyKeywords then property
         else other)"

section \<open>Map viewport\<close>

text \<open>A coordinate, as \<open>clampLatLng\<close> returns it and the geocode cache stores it.\<close>

record latlng =
  lat :: jsnum
  lng :: jsnum

text \<open>\<open>map.bounds\<close>: the bounding box of St. Paul, never assigned after start-up.\<close>

definition bounds_nw :: latlng where
  "bounds_nw = \<lparr>lat = Fin 45.008206, lng = Fin (- 93.217977)\<rparr>"

definition bounds_se :: latlng where
  "bounds_se = \<lparr>lat = Fin 44.883658, lng = Fin (- 92.993787)\<rparr>"

definition clampLatLng :: "jsnum \<Rightarrow> jsnum \<Rightarrow> latlng" where
  "clampLatLng lat0 lng0 =
     (let minLat = lat bounds_se;
          maxLat = lat bounds_nw;
          minLng = lng bounds_nw;
          maxLng = lng bounds_se;
          clampedLat = Math_min (Math_max lat0 minLat) maxLat;
          clampedLng = Math_min (Math_max lng0 minLng) maxLng
      in \<lparr>lat = clampedLat, lng = clampedLng\<rparr>)"

section \<open>Application state\<close>

text \<open>
  The records follow the objects of App.vue. Field names carry a short prefix where two
  kinds of object share a property name (\<open>type\<close>, \<open>code\<close>, \<open>selected\<close>, ...), since
  record fields are constants of the theory.
\<close>

text \<open>An entry of \<open>/codes\<close>.\<close>

record code =
  c_code :: int
  c_type :: string

text \<open>An element of \<open>incidentTypeGroups\<close>: \<open>{ type, codes: [], selected }\<close>.\<close>

record type_group =
  g_type :: string
  g_codes :: "int list"
  g_selected :: bool

text \<open>A Leaflet marker, as far as the program writes to it: the popup text it binds.\<close>

record marker =
  popup :: string

text \<open>An element of \<open>neighborhoods\<close>; \<open>marker\<close> is null when no map existed at load time.\<close>

record neighborhood =
  n_id :: int
  n_name :: string
  n_lat :: jsnum
  n_lng :: jsnum
  n_marker :: "marker option"
  n_crimes :: nat
  n_selected :: bool

text \<open>A row of \<open>/incidents\<close>, and the row with the three derived fields added.\<close>

record row =
  case_number :: string
  date :: string
  time :: string
  code_no :: int
  incident :: "string option"
  police_grid :: int
  neighborhood_number :: int
  block :: string

record incident_view = row +
  incident_type :: string
  neighborhood_name :: string
  category :: category

text \<open>The value of the "max incidents" field under \<open>v-model.number\<close>: a number, or the
  empty string while the field is empty.\<close>

datatype max_value = Num jsnum | EmptyString

record filters =
  dateStart :: string
  dateEnd :: string
  maxIncidents :: max_value

text \<open>The fields of the new-incident form; \<open>newIncident[field]\<close> is read through
  \<open>String(...)\<close> everywhere, so the form is kept as the strings that gives.\<close>

datatype field =
  f_case_number | f_date | f_time | f_code | f_incident | f_police_grid
  | f_neighborhood_number | f_block

record state =
  baseApiUrl :: string
  codes :: "code list"
  incidentTypeGroups :: "type_group list"
  neighborhoods :: "neighborhood list"
  incidents :: "incident_view list"
  visibleNeighborhoodIds :: "int list"
  isLoadingCrimes :: bool
  loadError :: string
  filters :: filters
  newIncident :: "field \<Rightarrow> string"
  newIncidentError :: string
  newIncidentSuccess :: string
  geocodeCache :: "string \<rightharpoonup> latlng"

section \<open>Network\<close>

text \<open>
  What awaiting \<open>fetch\<close> and reading the body gives: an exception with a message
  (\<open>Rejected\<close>), or a response with its \<open>ok\<close> flag, its body as text and its body as
  parsed JSON. The server is a parameter of every function that calls it.
\<close>

datatype 'a response = Rejected string | Response bool string 'a

text \<open>The query string of \<open>/incidents\<close>: \<open>limit\<close> is always set, the others only when
  the program sets them. \<open>p_limit\<close> is the number that \<open>String(...)\<close> renders.\<close>

record params =
  p_limit :: jsnum
  p_start_date :: "string option"
  p_end_date :: "string option"
  p_code :: "string option"
  p_neighborhood :: "string option"

text \<open>The body of \<open>PUT /new-incident\<close>.\<close>

record payload =
  pl_case_number :: string
  pl_date :: string
  pl_time :: string
  pl_code :: jsnum
  pl_incident :: string
  pl_police_grid :: jsnum
  pl_neighborhood_number :: jsnum
  pl_block :: string

text \<open>A request the program issues, with its URL: the trace of a run is a list of these.\<close>

datatype request =
  GET_incidents string params
  | PUT_new_incident string payload
  | GET_search string

text \<open>A thrown \<open>Error\<close> with its message.\<close>

datatype error = Error string

text \<open>\<open>a || b\<close> on strings: the empty string is falsy.\<close>

definition or_else :: "string \<Rightarrow> string \<Rightarrow> string" where
  "or_else a b = (if a = [] then b else a)"

subsection \<open>Numbers as text\<close>

text \<open>\<open>String(n)\<close> for an integer: decimal digits, with a minus sign when negative.\<close>

fun String_nat :: "nat \<Rightarrow> string" where
  "String_nat n =
     (if n < 10 then [char_of (48 + n)]
      else String_nat (n div 10) @ [char_of (48 + n mod 10)])"

definition String_int :: "int \<Rightarrow> string" where
  "String_int i = (if i < 0 then CHR ''-'' # String_nat (nat (- i)) else String_nat (nat i))"

text \<open>\<open>xs.join(sep)\<close>.\<close>

fun join :: "string \<Rightarrow> string list \<Rightarrow> string" where
  "join sep [] = []"
| "join sep [x] = x"
| "join sep (x # y # ys) = x @ sep @ join sep (y # ys)"

section \<open>Loading the codes\<close>

text \<open>
  The loop of \<open>loadCodes\<close> over the fetched codes. \<open>groupsMap\<close> is a \<open>Map\<close>, which keeps
  its keys in insertion order: it is the list of its values, one group per type.
  A type not yet present gets a new group at the end; then the code is pushed onto the
  group of its type.
\<close>

definition groupsMap_has :: "type_group list \<Rightarrow> string \<Rightarrow> bool" where
  "groupsMap_has gm t = list_ex (\<lambda>g. g_type g = t) gm"

definition groupsMap_push :: "code \<Rightarrow> type_group list \<Rightarrow> type_group list" where
  "groupsMap_push c gm =
     (let gm1 = (if \<not> groupsMap_has gm (c_type c)
                 then gm @ [\<lparr>g_type = c_type c, g_codes = [], g_selected = True\<rparr>]
                 else gm)
      in map (\<lambda>g. if g_type g = c_type c then g\<lparr>g_codes := g_codes g @ [c_code c]\<rparr> else g)
           gm1)"

definition build_groups :: "code list \<Rightarrow> type_group list" where
  "build_groups data = fold groupsMap_push data []"

text \<open>
  \<open>Array.prototype.sort\<close> with a comparison function: a stable sort, here by insertion.
  An element goes before the first element it does not compare greater than, so
  elements that compare equal keep their order.
\<close>

fun insert_by :: "('a \<Rightarrow> 'a \<Rightarrow> int) \<Rightarrow> 'a \<Rightarrow> 'a list \<Rightarrow> 'a list" where
  "insert_by cmp x [] = [x]"
| "insert_by cmp x (y # ys) = (if cmp x y \<le> 0 then x # y # ys else y # insert_by cmp x ys)"

definition sort_by :: "('a \<Rightarrow> 'a \<Rightarrow> int) \<Rightarrow> 'a list \<Rightarrow> 'a list" where
  "sort_by cmp xs = foldr (insert_by cmp) xs []"

text \<open>
  \<open>String.prototype.localeCompare\<close> depends on the host's collation, so \<open>loadCodes\<close>
  takes it as the parameter \<open>localeCompare\<close>. \<open>codeUnitCompare\<close> is the plain
  lexicographic comparison of code units, used where a concrete order is needed.
\<close>

fun codeUnitCompare :: "string \<Rightarrow> string \<Rightarrow> int" where
  "codeUnitCompare [] [] = 0"
| "codeUnitCompare [] (y # ys) = - 1"
| "codeUnitCompare (x # xs) [] = 1"
| "codeUnitCompare (x # xs) (y # ys) =
     (if (of_char x :: nat) < of_char y then - 1
      else if (of_char y :: nat) < of_char x then 1
      else codeUnitCompare xs ys)"

text \<open>A comparison function that orders its arguments: any two are comparable, and
  the order is transitive.\<close>

definition consistent_compare :: "(string \<Rightarrow> string \<Rightarrow> int) \<Rightarrow> bool" where
  "consistent_compare cmp \<longleftrightarrow>
     (\<forall>a b. cmp a b \<le> 0 \<or> cmp b a \<le> 0) \<and>
     (\<forall>a b c. cmp a b \<le> 0 \<and> cmp b c \<le> 0 \<longrightarrow> cmp a c \<le> 0)"

definition loadCodes ::
    "(string \<Rightarrow> string \<Rightarrow> int) \<Rightarrow> (string \<Rightarrow> code list response) \<Rightarrow> state \<Rightarrow> error + state" where
  "loadCodes localeCompare fetch s =
     (case fetch (baseApiUrl s @ ''/codes'') of
        Rejected msg \<Rightarrow> Inl (Error msg)
      | Response ok text data \<Rightarrow>
          if \<not> ok then Inl (Error ''Failed to load crime codes'')
          else Inr (s\<lparr>codes := data,
                      incidentTypeGroups :=
                        sort_by (\<lambda>a b. localeCompare (g_type a) (g_type b))
                          (build_groups data)\<rparr>))"

section \<open>Neighborhood counts\<close>

text \<open>The two loops of \<open>updateNeighborhoodCountsFromIncidents\<close> that fill \<open>counts\<close>.\<close>

definition counts_init :: "neighborhood list \<Rightarrow> (int \<rightharpoonup> nat)" where
  "counts_init ns = fold (\<lambda>n counts. counts(n_id n \<mapsto> 0)) ns Map.empty"

definition counts_add :: "incident_view \<Rightarrow> (int \<rightharpoonup> nat) \<Rightarrow> (int \<rightharpoonup> nat)" where
  "counts_add crime counts =
     (case counts (neighborhood_number crime) of
        None \<Rightarrow> counts
      | Some k \<Rightarrow> counts(neighborhood_number crime \<mapsto> k + 1))"

definition counts_of :: "neighborhood list \<Rightarrow> incident_view list \<Rightarrow> (int \<rightharpoonup> nat)" where
  "counts_of ns crimes = fold counts_add crimes (counts_init ns)"

text \<open>The popup text \<open>`${n.name}: ${n.crimes} crime${n.crimes === 1 ? '' : 's'}`\<close>.\<close>

definition popup_text :: "string \<Rightarrow> nat \<Rightarrow> string" where
  "popup_text nm k = nm @ '': '' @ String_nat k @ '' crime'' @ (if k = 1 then '''' else ''s'')"

definition bindPopup :: "marker \<Rightarrow> string \<Rightarrow> marker" where
  "bindPopup m txt = m\<lparr>popup := txt\<rparr>"

definition update_neighborhood :: "(int \<rightharpoonup> nat) \<Rightarrow> neighborhood \<Rightarrow> neighborhood" where
  "update_neighborhood counts n =
     (let n1 = n\<lparr>n_crimes := (case counts (n_id n) of None \<Rightarrow> 0 | Some k \<Rightarrow> k)\<rparr>
      in case n_marker n1 of
           None \<Rightarrow> n1
         | Some m \<Rightarrow> n1\<lparr>n_marker := Some (bindPopup m (popup_text (n_name n1) (n_crimes n1)))\<rparr>)"

definition updateNeighborhoodCountsFromIncidents :: "state \<Rightarrow> state" where
  "updateNeighborhoodCountsFromIncidents s =
     (let counts = counts_of (neighborhoods s) (incidents s)
      in s\<lparr>neighborhoods := map (update_neighborhood counts) (neighborhoods s)\<rparr>)"

section \<open>Fetching incidents\<close>

text \<open>The local constants of \<open>fetchIncidents\<close>, in the order the function computes them.\<close>

definition selectedTypes :: "state \<Rightarrow> string list" where
  "selectedTypes s = map g_type (filter g_selected (incidentTypeGroups s))"

text \<open>\<open>codeSet\<close> is a \<open>Set\<close>: each code once. The result is sorted by \<open>a - b\<close>.\<close>

definition selectedCodes :: "state \<Rightarrow> int list" where
  "selectedCodes s =
     (if selectedTypes s \<noteq> [] then
        sort (remdups (concat
          (map g_codes (filter (\<lambda>g. g_type g \<in> set (selectedTypes s)) (incidentTypeGroups s)))))
      else [])"

definition selectedNeighborhoodIds :: "state \<Rightarrow> int list" where
  "selectedNeighborhoodIds s = map n_id (filter n_selected (neighborhoods s))"

definition baseNeighborhoodIds :: "state \<Rightarrow> int list" where
  "baseNeighborhoodIds s =
     (if selectedNeighborhoodIds s \<noteq> [] then selectedNeighborhoodIds s
      else map n_id (neighborhoods s))"

definition inViewIds :: "state \<Rightarrow> int list" where
  "inViewIds s =
     (if visibleNeighborhoodIds s \<noteq> []
      then filter (\<lambda>i. i \<in> set (visibleNeighborhoodIds s)) (baseNeighborhoodIds s)
      else baseNeighborhoodIds s)"

definition limit_of :: "max_value \<Rightarrow> jsnum" where
  "limit_of m = (case m of Num x \<Rightarrow> (if js_gt0 x then x else Fin 1000) | EmptyString \<Rightarrow> Fin 1000)"

definition query_params :: "state \<Rightarrow> params" where
  "query_params s =
     \<lparr>p_limit = limit_of (maxIncidents (filters s)),
      p_start_date = (if dateStart (filters s) \<noteq> [] then Some (dateStart (filters s)) else None),
      p_end_date = (if dateEnd (filters s) \<noteq> [] then Some (dateEnd (filters s)) else None),
      p_code = (if selectedCodes s \<noteq> []
                then Some (join '','' (map String_int (selectedCodes s))) else None),
      p_neighborhood = (if inViewIds s \<noteq> []
                then Some (join '','' (map String_int (inViewIds s))) else None)\<rparr>"

text \<open>The two helper maps; a later entry for the same key replaces an earlier one.\<close>

definition codeToType :: "state \<Rightarrow> (int \<rightharpoonup> string)" where
  "codeToType s = map_of (rev (map (\<lambda>c. (c_code c, c_type c)) (codes s)))"

definition neighborhoodMap :: "state \<Rightarrow> (int \<rightharpoonup> string)" where
  "neighborhoodMap s = map_of (rev (map (\<lambda>n. (n_id n, n_name n)) (neighborhoods s)))"

definition get_or_unknown :: "(int \<rightharpoonup> string) \<Rightarrow> int \<Rightarrow> string" where
  "get_or_unknown m k = (case m k of None \<Rightarrow> ''Unknown'' | Some v \<Rightarrow> or_else v ''Unknown'')"

definition enrich :: "state \<Rightarrow> row \<Rightarrow> incident_view" where
  "enrich s r =
     (let ty = get_or_unknown (codeToType s) (code_no r);
          nm = get_or_unknown (neighborhoodMap s) (neighborhood_number r)
      in row.extend r
           (incident_view.fields ty nm (categorizeCrime ty (incident r))))"

text \<open>
  \<open>fetchIncidents\<close>: the new state and the requests issued, in order. An exception
  inside the \<open>try\<close> block ends in the \<open>catch\<close> clause, which sets \<open>loadError\<close>.
\<close>

definition fetchIncidents ::
    "(request \<Rightarrow> row list response) \<Rightarrow> state \<Rightarrow> state \<times> request list" where
  "fetchIncidents fetch s =
     (if baseApiUrl s = [] then (s, [])
      else
        let s1 = s\<lparr>isLoadingCrimes := True, loadError := ''''\<rparr> in
        if inViewIds s1 = [] then
          ((updateNeighborhoodCountsFromIncidents (s1\<lparr>incidents := []\<rparr>))
             \<lparr>isLoadingCrimes := False\<rparr>, [])
        else
          let req = GET_incidents (baseApiUrl s1 @ ''/incidents'') (query_params s1) in
          case fetch req of
            Rejected msg \<Rightarrow>
              (s1\<lparr>loadError := or_else msg ''Failed to fetch incidents'',
                  isLoadingCrimes := False\<rparr>, [req])
          | Response ok text data \<Rightarrow>
              if \<not> ok then
                (s1\<lparr>loadError := or_else (or_else text ''Failed to fetch incidents'')
                                    ''Failed to fetch incidents'',
                    isLoadingCrimes := False\<rparr>, [req])
              else
                ((updateNeighborhoodCountsFromIncidents
                    (s1\<lparr>incidents := map (enrich s1) data\<rparr>))
                   \<lparr>isLoadingCrimes := False\<rparr>, [req]))"

section \<open>Geocoding a block\<close>

text \<open>The character classes of the pattern \<open>/^(\d+X)\s+(.*)$/i\<close> and of \<open>trim\<close>, on
  Latin-1: \<open>\d\<close> is 0-9; \<open>\s\<close> is tab, line feed, vertical tab, form feed, carriage
  return, space and no-break space; \<open>.\<close> is anything but line feed and carriage return.\<close>

definition isDigit :: "char \<Rightarrow> bool" where
  "isDigit c \<longleftrightarrow> (48 \<le> (of_char c :: nat) \<and> (of_char c :: nat) \<le> 57)"

definition isSpace :: "char \<Rightarrow> bool" where
  "isSpace c \<longleftrightarrow> (of_char c :: nat) \<in> set [9, 10, 11, 12, 13, 32, 160]"

definition isLineTerminator :: "char \<Rightarrow> bool" where
  "isLineTerminator c \<longleftrightarrow> (of_char c :: nat) \<in> set [10, 13]"

definition trim :: "string \<Rightarrow> string" where
  "trim s = rev (dropWhile isSpace (rev (dropWhile isSpace s)))"

text \<open>
  \<open>addr.match(/^(\d+X)\s+(.*)$/i)\<close>: the two groups when the pattern matches. The
  digits and the white space are taken greedily; giving some back never helps, since
  the next thing wanted is a letter X (either case) and then a rest without line
  terminators.
\<close>

definition match_house_number :: "string \<Rightarrow> (string \<times> string) option" where
  "match_house_number addr =
     (let ds = takeWhile isDigit addr; r1 = dropWhile isDigit addr in
      if ds = [] then None
      else case r1 of
        [] \<Rightarrow> None
      | x # r2 \<Rightarrow>
          if x \<noteq> CHR ''X'' \<and> x \<noteq> CHR ''x'' then None
          else
            let ws = takeWhile isSpace r2; rest = dropWhile isSpace r2 in
            if ws = [] then None
            else if list_ex isLineTerminator rest then None
            else Some (ds @ [x], rest))"

text \<open>\<open>s.replace(a, b)\<close> with a one-character string pattern: the first occurrence only.\<close>

fun replace_char :: "char \<Rightarrow> string \<Rightarrow> string \<Rightarrow> string" where
  "replace_char a b [] = []"
| "replace_char a b (c # cs) = (if c = a then b @ cs else c # replace_char a b cs)"

definition normalizeBlockAddress :: "string \<Rightarrow> string" where
  "normalizeBlockAddress block0 =
     (let addr = trim block0;
          addr1 = (case match_house_number addr of
                     None \<Rightarrow> addr
                   | Some (m1, m2) \<Rightarrow> replace_char (CHR ''X'') ''0'' m1 @ '' '' @ m2)
      in addr1 @ '', Saint Paul, MN'')"

text \<open>The JSON of a geocoding answer: not an array, or an array whose entries carry
  \<open>parseFloat(lat)\<close> and \<open>parseFloat(lon)\<close>.\<close>

datatype geo_json = NotAnArray | Results "(jsnum \<times> jsnum) list"

text \<open>
  \<open>geocodeCache\<close> is a plain object, so reading \<open>geocodeCache[block]\<close> finds, besides the
  entries the program stored, what the object inherits: the members of
  \<open>Object.prototype\<close> (\<open>constructor\<close>, \<open>toString\<close>, \<open>__proto__\<close>, ...), each of them a function
  or an object and so truthy. The record field \<open>geocodeCache\<close> holds the stored entries;
  which other names a read answers is the host's affair and is the parameter
  \<open>inherited\<close> of the functions below.
\<close>

datatype geocoded = Null | Coordinate latlng | Inherited string

definition cache_read :: "(string \<Rightarrow> bool) \<Rightarrow> (string \<rightharpoonup> latlng) \<Rightarrow> string \<Rightarrow> geocoded" where
  "cache_read inherited cache k =
     (case cache k of
        Some c \<Rightarrow> Coordinate c
      | None \<Rightarrow> if inherited k then Inherited k else Null)"

text \<open>The property names of \<open>Object.prototype\<close> as the language standard has them.\<close>

definition Object_prototype_names :: "string list" where
  "Object_prototype_names =
     [''constructor'', ''__defineGetter__'', ''__defineSetter__'', ''hasOwnProperty'',
      ''__lookupGetter__'', ''__lookupSetter__'', ''isPrototypeOf'',
      ''propertyIsEnumerable'', ''toString'', ''valueOf'', ''__proto__'',
      ''toLocaleString'']"

definition inherits_Object_prototype :: "string \<Rightarrow> bool" where
  "inherits_Object_prototype k \<longleftrightarrow> List.member Object_prototype_names k"

text \<open>\<open>geocodeBlock\<close>: the value returned, the new state and the searches issued, each
  with the query it was asked. Whatever the read of the cache finds is returned as it
  is when it is truthy; a stored entry is written only after a read that found
  nothing.\<close>

definition geocodeBlock ::
    "(string \<Rightarrow> bool) \<Rightarrow> (request \<Rightarrow> geo_json response) \<Rightarrow> string \<Rightarrow> state
       \<Rightarrow> geocoded \<times> state \<times> request list" where
  "geocodeBlock inherited fetch block0 s =
     (if block0 = [] then (Null, s, [])
      else case cache_read inherited (geocodeCache s) block0 of
        Coordinate cached \<Rightarrow> (Coordinate cached, s, [])
      | Inherited member \<Rightarrow> (Inherited member, s, [])
      | Null \<Rightarrow>
          let query = normalizeBlockAddress block0; req = GET_search query in
          case fetch req of
            Rejected msg \<Rightarrow> (Null, s, [req])
          | Response ok text data \<Rightarrow>
              if \<not> ok then (Null, s, [req])
              else case data of
                NotAnArray \<Rightarrow> (Null, s, [req])
              | Results [] \<Rightarrow> (Null, s, [req])
              | Results ((lat0, lng0) # others) \<Rightarrow>
                  let clamped = clampLatLng lat0 lng0
                  in (Coordinate clamped,
                      s\<lparr>geocodeCache := (geocodeCache s)(block0 \<mapsto> clamped)\<rparr>,
                      [req]))"

section \<open>Submitting a new incident\<close>

definition requiredFields :: "field list" where
  "requiredFields =
     [f_case_number, f_date, f_time, f_code, f_incident, f_police_grid,
      f_neighborhood_number, f_block]"

text \<open>\<open>Number(...)\<close> of a form value is the parameter \<open>toNumber\<close>: the numeric reading
  of the string, NaN when it has none.\<close>

definition make_payload :: "(string \<Rightarrow> jsnum) \<Rightarrow> (field \<Rightarrow> string) \<Rightarrow> payload" where
  "make_payload toNumber form =
     \<lparr>pl_case_number = trim (form f_case_number),
      pl_date = form f_date,
      pl_time = form f_time,
      pl_code = toNumber (form f_code),
      pl_incident = trim (form f_incident),
      pl_police_grid = toNumber (form f_police_grid),
      pl_neighborhood_number = toNumber (form f_neighborhood_number),
      pl_block = trim (form f_block)\<rparr>"

definition submitNewIncident ::
    "(string \<Rightarrow> jsnum) \<Rightarrow> (request \<Rightarrow> unit response) \<Rightarrow> (request \<Rightarrow> row list response)
       \<Rightarrow> state \<Rightarrow> state \<times> request list" where
  "submitNewIncident toNumber put fetch s =
     (let s1 = s\<lparr>newIncidentError := '''', newIncidentSuccess := ''''\<rparr> in
      if baseApiUrl s1 = [] then (s1\<lparr>newIncidentError := ''Enter REST API URL first.''\<rparr>, [])
      else if list_ex (\<lambda>f. trim (newIncident s1 f) = []) requiredFields
      then (s1\<lparr>newIncidentError := ''All fields are required.''\<rparr>, [])
      else
        let req = PUT_new_incident (baseApiUrl s1 @ ''/new-incident'')
                    (make_payload toNumber (newIncident s1)) in
        case put req of
          Rejected msg \<Rightarrow>
            (s1\<lparr>newIncidentError := or_else msg ''Failed to add incident.''\<rparr>, [req])
        | Response ok text u \<Rightarrow>
            if \<not> ok then
              (s1\<lparr>newIncidentError := or_else (or_else text ''Failed to add incident'')
                                         ''Failed to add incident.''\<rparr>, [req])
            else
              let (s2, reqs) =
                    fetchIncidents fetch
                      (s1\<lparr>newIncidentSuccess := ''Incident successfully added.''\<rparr>)
              in (s2, req # reqs))"

section \<open>The state at start-up\<close>

text \<open>The values the reactive variables are created with.\<close>

definition initial_state :: state where
  "initial_state =
     \<lparr>baseApiUrl = '''',
      codes = [],
      incidentTypeGroups = [],
      neighborhoods = [],
      incidents = [],
      visibleNeighborhoodIds = [],
      isLoadingCrimes = False,
      loadError = '''',
      filters = \<lparr>dateStart = '''', dateEnd = '''', maxIncidents = Num (Fin 1000)\<rparr>,
      newIncident = (\<lambda>f. ''''),
      newIncidentError = '''',
      newIncidentSuccess = '''',
      geocodeCache = Map.empty\<rparr>"

text \<open>A neighborhood as \<open>loadNeighborhoods\<close> creates it, with a marker on the map:
  no crimes yet, selected, the popup \<open>`${n.name}: 0 crimes`\<close>.\<close>

definition loaded_neighborhood :: "int \<Rightarrow> string \<Rightarrow> jsnum \<Rightarrow> jsnum \<Rightarrow> neighborhood" where
  "loaded_neighborhood i nm la lo =
     \<lparr>n_id = i, n_name = nm, n_lat = la, n_lng = lo,
      n_marker = Some \<lparr>popup = nm @ '': 0 crimes''\<rparr>, n_crimes = 0, n_selected = True\<rparr>"

section \<open>Example data\<close>

text \<open>A loaded application: three codes in two types, two neighborhoods, and servers
  that answer every request the same way.\<close>

definition example_codes :: "code list" where
  "example_codes =
     [\<lparr>c_code = 1, c_type = ''Theft''\<rparr>, \<lparr>c_code = 2, c_type = ''Theft''\<rparr>,
      \<lparr>c_code = 3, c_type = ''Assault''\<rparr>]"

definition example_state :: state where
  "example_state =
     initial_state
       \<lparr>baseApiUrl := ''http://localhost:8000'',
        codes := example_codes,
        incidentTypeGroups :=
          [\<lparr>g_type = ''Assault'', g_codes = [3], g_selected = True\<rparr>,
           \<lparr>g_type = ''Theft'', g_codes = [1, 2], g_selected = True\<rparr>],
        neighborhoods :=
          [loaded_neighborhood 1 ''A'' (Fin 44.942068) (Fin (- 93.020521)),
           loaded_neighborhood 2 ''B'' (Fin 44.977413) (Fin (- 93.025156))]\<rparr>"

text \<open>The same application after the user has cleared every neighborhood checkbox.\<close>

definition unselected_state :: state where
  "unselected_state =
     example_state
       \<lparr>neighborhoods :=
          [(loaded_neighborhood 1 ''A'' (Fin 44.942068) (Fin (- 93.020521)))
             \<lparr>n_selected := False\<rparr>,
           (loaded_neighborhood 2 ''B'' (Fin 44.977413) (Fin (- 93.025156)))
             \<lparr>n_selected := False\<rparr>]\<rparr>"

definition example_row :: row where
  "example_row =
     \<lparr>case_number = ''14174133'', date = ''2014-08-18'', time = ''09:30:00'', code_no = 1,
      incident = Some ''Theft'', police_grid = 87, neighborhood_number = 1,
      block = ''98X UNIVERSITY AV W''\<rparr>"

definition server_no_rows :: "request \<Rightarrow> row list response" where
  "server_no_rows r = Response True '''' []"

text \<open>The loaded application with one incident on display and a viewport that shows
  the marker of neither neighborhood (id 7 belongs to none of them).\<close>

definition offscreen_state :: state where
  "offscreen_state =
     example_state
       \<lparr>visibleNeighborhoodIds := [7],
        incidents := [enrich example_state example_row]\<rparr>"

text \<open>The loaded application with 2.5 typed into the "max incidents" field.\<close>

definition fractional_limit_state :: state where
  "fractional_limit_state =
     example_state\<lparr>filters := (filters example_state)\<lparr>maxIncidents := Num (Fin 2.5)\<rparr>\<rparr>"

text \<open>The loaded application with the "max incidents" field emptied and every type
  checkbox cleared.\<close>

definition cleared_state :: state where
  "cleared_state =
     example_state
       \<lparr>filters := (filters example_state)\<lparr>maxIncidents := EmptyString\<rparr>,
        incidentTypeGroups :=
          [\<lparr>g_type = ''Assault'', g_codes = [3], g_selected = False\<rparr>,
           \<lparr>g_type = ''Theft'', g_codes = [1, 2], g_selected = False\<rparr>]\<rparr>"

section \<open>Counting matching incidents\<close>

text \<open>The number of incidents whose \<open>neighborhood_number\<close> is a given id: what the
  count of a neighborhood is meant to be.\<close>

definition matching :: "incident_view list \<Rightarrow> int \<Rightarrow> nat" where
  "matching crimes i = length (filter (\<lambda>c. neighborhood_number c = i) crimes)"

text \<open>The loaded application showing three incidents: two in neighborhood 1 and one in
  neighborhood 2.\<close>

definition counted_state :: state where
  "counted_state =
     example_state
       \<lparr>incidents :=
          [enrich example_state example_row,
           enrich example_state (example_row\<lparr>case_number := ''14174134''\<rparr>),
           enrich example_state (example_row\<lparr>case_number := ''14174135'', neighborhood_number := 2\<rparr>)]\<rparr>"

text \<open>The same with a fourth incident, in a neighborhood 9 that is not loaded.\<close>

definition stray_state :: state where
  "stray_state =
     counted_state
       \<lparr>incidents := incidents counted_state
          @ [enrich example_state
               (example_row\<lparr>case_number := ''14174136'', neighborhood_number := 9\<rparr>)]\<rparr>"

section \<open>What the groups of \<open>loadCodes\<close> are to satisfy\<close>

text \<open>The step of the loop on one group, and the invariant of the loop: one group per
  type that occurs, each selected and holding the codes of its type in the order fetched.\<close>

definition push_code :: "code \<Rightarrow> type_group \<Rightarrow> type_group" where
  "push_code c g = (if g_type g = c_type c then g\<lparr>g_codes := g_codes g @ [c_code c]\<rparr> else g)"

definition groups_inv :: "code list \<Rightarrow> type_group list \<Rightarrow> bool" where
  "groups_inv data gs \<longleftrightarrow>
     distinct (map g_type gs) \<and> set (map g_type gs) = c_type ` set data \<and>
     (\<forall>g \<in> set gs. g_selected g \<and>
        g_codes g = map c_code (filter (\<lambda>c. c_type c = g_type g) data))"

text \<open>A server that answers \<open>/codes\<close> with a given list, the application right after
  the URL dialog, and a code list in which code 1 occurs three times.\<close>

definition server_codes :: "code list \<Rightarrow> string \<Rightarrow> code list response" where
  "server_codes cs url = Response True '''' cs"

definition started_state :: state where
  "started_state = initial_state\<lparr>baseApiUrl := ''http://localhost:8000''\<rparr>"

definition duplicated_codes :: "code list" where
  "duplicated_codes =
     [\<lparr>c_code = 1, c_type = ''Theft''\<rparr>, \<lparr>c_code = 1, c_type = ''Theft''\<rparr>,
      \<lparr>c_code = 1, c_type = ''Assault''\<rparr>]"

section \<open>Example geocoding data\<close>

text \<open>A geocoding service that answers every search with a given result list.\<close>

definition server_geocode :: "(jsnum \<times> jsnum) list \<Rightarrow> request \<Rightarrow> geo_json response" where
  "server_geocode rs req = Response True '''' (Results rs)"

text \<open>The application showing its three incidents, with the coordinate of a block whose
  text is "980 UNIVERSITY AV W, Saint Paul, MN" in the cache, and with that of
  "98X UNIVERSITY AV W" in the cache.\<close>

definition cached_normalized_state :: state where
  "cached_normalized_state =
     counted_state
       \<lparr>geocodeCache :=
          [''980 UNIVERSITY AV W, Saint Paul, MN'' \<mapsto> \<lparr>lat = Fin 44.955, lng = Fin (- 93.15)\<rparr>]\<rparr>"

definition cached_block_state :: state where
  "cached_block_state =
     counted_state
       \<lparr>geocodeCache :=
          [''98X UNIVERSITY AV W'' \<mapsto> \<lparr>lat = Fin 44.955, lng = Fin (- 93.15)\<rparr>]\<rparr>"

section \<open>Example form data\<close>






section \<open>Properties of the string helpers\<close>

lemma startsWith_iff: "startsWith s k \<longleftrightarrow> (\<exists>ss. s = k @ ss)"
  by (induction s k rule: startsWith.induct) auto

lemma includes_str_iff: "includes_str s k \<longleftrightarrow> (\<exists>ps ss. s = ps @ k @ ss)"
proof (induction s)
  case Nil
  then show ?case by auto
next
  case (Cons c cs)
  show ?case
  proof
    assume "includes_str (c # cs) k"
    then consider "startsWith (c # cs) k" | "includes_str cs k" by auto
    then show "\<exists>ps ss. c # cs = ps @ k @ ss"
    proof cases
      case 1
      then obtain ss where "c # cs = k @ ss" using startsWith_iff by blast
      then have "c # cs = [] @ k @ ss" by simp
      then show ?thesis by blast
    next
      case 2
      then obtain ps ss where "cs = ps @ k @ ss" using Cons.IH by blast
      then have "c # cs = (c # ps) @ k @ ss" by simp
      then show ?thesis by blast
    qed
  next
    assume "\<exists>ps ss. c # cs = ps @ k @ ss"
    then obtain ps ss where eq: "c # cs = ps @ k @ ss" by blast
    show "includes_str (c # cs) k"
    proof (cases ps)
      case Nil
      with eq have "startsWith (c # cs) k" using startsWith_iff by auto
      then show ?thesis by simp
    next
      case (Cons p ps')
      with eq have "cs = ps' @ k @ ss" by simp
      then have "includes_str cs k" using Cons.IH by blast
      then show ?thesis by simp
    qed
  qed
qed

section \<open>Categorisation\<close>

text \<open>
  C1. For every incident type and description, \<open>categorizeCrime\<close> lower-cases the two
  parts joined by a space; the result is \<open>violent\<close> when one of the ten violent keywords
  occurs in that text as a substring, otherwise \<open>property\<close> when one of the twelve
  property keywords occurs, otherwise \<open>other\<close>. A text in which "robbery" occurs is
  therefore always \<open>violent\<close>, whatever else occurs in it, and type "Robbery" with
  description "Aggravated Robbery" is \<open>violent\<close>.
\<close>

theorem categorizeCrime_keywords:
  "categorizeCrime ty txt =
     (let text = toLowerCase (ty @ '' '' @ (case txt of None \<Rightarrow> '''' | Some t \<Rightarrow> t)) in
      if \<exists>k \<in> {''murder'', ''manslaughter'', ''rape'', ''robbery'', ''assault'', ''kidnap'',
                 ''homicide'', ''weapon'', ''threat'', ''domestic''}.
            \<exists>ps ss. text = ps @ k @ ss
      then violent
      else if \<exists>k \<in> {''burglary'', ''theft'', ''robbery'', ''arson'', ''vandalism'',
                 ''damage to property'', ''property'', ''motor vehicle theft'',
                 ''shoplifting'', ''stolen'', ''fraud'', ''forgery''}.
            \<exists>ps ss. text = ps @ k @ ss
      then property
      else other)
   \<and> ((\<exists>ps ss. toLowerCase (ty @ '' '' @ (case txt of None \<Rightarrow> '''' | Some t \<Rightarrow> t))
                  = ps @ ''robbery'' @ ss)
        \<longrightarrow> categorizeCrime ty txt = violent)
   \<and> categorizeCrime ''Robbery'' (Some ''Aggravated Robbery'') = violent"
proof (intro conjI)
  show "categorizeCrime ty txt =
     (let text = toLowerCase (ty @ '' '' @ (case txt of None \<Rightarrow> '''' | Some t \<Rightarrow> t)) in
      if \<exists>k \<in> {''murder'', ''manslaughter'', ''rape'', ''robbery'', ''assault'', ''kidnap'',
                 ''homicide'', ''weapon'', ''threat'', ''domestic''}.
            \<exists>ps ss. text = ps @ k @ ss
      then violent
      else if \<exists>k \<in> {''burglary'', ''theft'', ''robbery'', ''arson'', ''vandalism'',
                 ''damage to property'', ''property'', ''motor vehicle theft'',
                 ''shoplifting'', ''stolen'', ''fraud'', ''forgery''}.
            \<exists>ps ss. text = ps @ k @ ss
      then property
      else other)"
    unfolding categorizeCrime_def Let_def list_ex_iff includes_str_iff
      violentKeywords_def propertyKeywords_def
    by simp
  show "(\<exists>ps ss. toLowerCase (ty @ '' '' @ (case txt of None \<Rightarrow> '''' | Some t \<Rightarrow> t))
                  = ps @ ''robbery'' @ ss)
        \<longrightarrow> categorizeCrime ty txt = violent"
    unfolding categorizeCrime_def Let_def list_ex_iff includes_str_iff violentKeywords_def
    by simp
  show "categorizeCrime ''Robbery'' (Some ''Aggravated Robbery'') = violent"
    by code_simp
qed

text \<open>The theorem at a text in which "robbery" stands between two property keywords.\<close>

theorem categorizeCrime_keywords_witness:
  "toLowerCase (''Theft'' @ '' '' @ ''Robbery of stolen property'')
     = ''theft '' @ ''robbery'' @ '' of stolen property''
   \<and> categorizeCrime ''Theft'' (Some ''Robbery of stolen property'') = violent"
proof -
  have eq: "toLowerCase (''Theft'' @ '' '' @ ''Robbery of stolen property'')
     = ''theft '' @ ''robbery'' @ '' of stolen property''"
    by code_simp
  then have "\<exists>ps ss. toLowerCase (''Theft'' @ '' '' @
        (case Some ''Robbery of stolen property'' of None \<Rightarrow> '''' | Some t \<Rightarrow> t))
      = ps @ ''robbery'' @ ss"
    unfolding option.case by blast
  with categorizeCrime_keywords [of "''Theft''" "Some ''Robbery of stolen property''"]
  have "categorizeCrime ''Theft'' (Some ''Robbery of stolen property'') = violent"
    by blast
  with eq show ?thesis by blast
qed

section \<open>Frame lemmas for \<open>fetchIncidents\<close>\<close>

lemma inViewIds_loading [simp]:
  "inViewIds (s\<lparr>isLoadingCrimes := b, loadError := e\<rparr>) = inViewIds s"
  by (simp add: inViewIds_def baseNeighborhoodIds_def selectedNeighborhoodIds_def)

lemma selectedCodes_loading [simp]:
  "selectedCodes (s\<lparr>isLoadingCrimes := b, loadError := e\<rparr>) = selectedCodes s"
  by (simp add: selectedCodes_def selectedTypes_def)

lemma query_params_loading [simp]:
  "query_params (s\<lparr>isLoadingCrimes := b, loadError := e\<rparr>) = query_params s"
  by (simp add: query_params_def)

lemma fetchIncidents_request:
  assumes "baseApiUrl s \<noteq> []" and "inViewIds s \<noteq> []"
  shows "snd (fetchIncidents fetch s)
           = [GET_incidents (baseApiUrl s @ ''/incidents'') (query_params s)]"
  using assms by (simp add: fetchIncidents_def Let_def split: response.splits)

lemma fetchIncidents_no_request:
  assumes "inViewIds s = []"
  shows "snd (fetchIncidents fetch s) = []"
  using assms by (simp add: fetchIncidents_def Let_def)

lemma counts_init_eq: "counts_init ns i = (if i \<in> n_id ` set ns then Some 0 else None)"
proof -
  have "fold (\<lambda>n counts. counts(n_id n \<mapsto> 0)) ns m i
          = (if i \<in> n_id ` set ns then Some 0 else m i)" for m :: "int \<rightharpoonup> nat"
    by (induction ns arbitrary: m) auto
  then show ?thesis by (simp add: counts_init_def)
qed

section \<open>Clamping\<close>

text \<open>NaN is not ordered: \<open>Math.max\<close> and \<open>Math.min\<close> hand it through, so a NaN
  coordinate stays NaN.\<close>

lemma clampLatLng_NaN:
  "lat (clampLatLng NaN lng0) = NaN" and "lng (clampLatLng lat0 NaN) = NaN"
  by (simp_all add: clampLatLng_def bounds_nw_def bounds_se_def)




section \<open>The neighborhood filter of the incident query\<close>

text \<open>
  C2. For every list of neighborhoods and every list of visible ids, the candidate
  neighborhood ids of the incident query are the ids of the selected neighborhoods, or
  the ids of all neighborhoods when none is selected. The effective ids are the
  candidates that are also visible, except that with no visible id at all they are the
  candidates as they stand. The query that \<open>fetchIncidents\<close> sends carries the effective
  ids, joined by commas.
\<close>

theorem neighborhood_filter:
  "set (baseNeighborhoodIds s) =
     (if \<exists>n \<in> set (neighborhoods s). n_selected n
      then n_id ` {n \<in> set (neighborhoods s). n_selected n}
      else n_id ` set (neighborhoods s))
   \<and> set (inViewIds s) =
     (if visibleNeighborhoodIds s = [] then set (baseNeighborhoodIds s)
      else set (baseNeighborhoodIds s) \<inter> set (visibleNeighborhoodIds s))
   \<and> (visibleNeighborhoodIds s = [] \<longrightarrow> inViewIds s = baseNeighborhoodIds s)
   \<and> (baseApiUrl s \<noteq> [] \<and> inViewIds s \<noteq> [] \<longrightarrow>
        (\<exists>prm. snd (fetchIncidents fetch s)
                  = [GET_incidents (baseApiUrl s @ ''/incidents'') prm]
               \<and> p_neighborhood prm = Some (join '','' (map String_int (inViewIds s)))))"
proof (intro conjI impI)
  show "set (baseNeighborhoodIds s) =
     (if \<exists>n \<in> set (neighborhoods s). n_selected n
      then n_id ` {n \<in> set (neighborhoods s). n_selected n}
      else n_id ` set (neighborhoods s))"
    by (auto simp: baseNeighborhoodIds_def selectedNeighborhoodIds_def filter_empty_conv)
  show "set (inViewIds s) =
     (if visibleNeighborhoodIds s = [] then set (baseNeighborhoodIds s)
      else set (baseNeighborhoodIds s) \<inter> set (visibleNeighborhoodIds s))"
    by (auto simp: inViewIds_def)
  show "inViewIds s = baseNeighborhoodIds s" if "visibleNeighborhoodIds s = []"
    using that by (simp add: inViewIds_def)
  show "\<exists>prm. snd (fetchIncidents fetch s)
                  = [GET_incidents (baseApiUrl s @ ''/incidents'') prm]
               \<and> p_neighborhood prm = Some (join '','' (map String_int (inViewIds s)))"
    if "baseApiUrl s \<noteq> [] \<and> inViewIds s \<noteq> []"
  proof -
    have "snd (fetchIncidents fetch s)
            = [GET_incidents (baseApiUrl s @ ''/incidents'') (query_params s)]"
      using that by (simp add: fetchIncidents_request)
    moreover have "p_neighborhood (query_params s)
            = Some (join '','' (map String_int (inViewIds s)))"
      using that by (simp add: query_params_def)
    ultimately show ?thesis by blast
  qed
qed

text \<open>With every checkbox cleared and nothing visible, both neighborhoods are asked
  for; with both selected and ids 2 and 5 visible, neighborhood 2 alone.\<close>

theorem neighborhood_filter_witness:
  "visibleNeighborhoodIds unselected_state = []
   \<and> baseNeighborhoodIds unselected_state = [1, 2]
   \<and> inViewIds unselected_state = baseNeighborhoodIds unselected_state
   \<and> set (inViewIds (example_state\<lparr>visibleNeighborhoodIds := [2, 5]\<rparr>))
       = set (baseNeighborhoodIds (example_state\<lparr>visibleNeighborhoodIds := [2, 5]\<rparr>))
           \<inter> set (visibleNeighborhoodIds (example_state\<lparr>visibleNeighborhoodIds := [2, 5]\<rparr>))
   \<and> inViewIds (example_state\<lparr>visibleNeighborhoodIds := [2, 5]\<rparr>) = [2]
   \<and> (\<exists>prm. snd (fetchIncidents server_no_rows unselected_state)
                = [GET_incidents (baseApiUrl unselected_state @ ''/incidents'') prm]
             \<and> p_neighborhood prm = Some ''1,2'')"
proof -
  have v: "visibleNeighborhoodIds unselected_state = []"
    by code_simp
  have b: "baseNeighborhoodIds unselected_state = [1, 2]"
    by code_simp
  have i: "inViewIds (example_state\<lparr>visibleNeighborhoodIds := [2, 5]\<rparr>) = [2]"
    by code_simp
  have w: "visibleNeighborhoodIds (example_state\<lparr>visibleNeighborhoodIds := [2, 5]\<rparr>) \<noteq> []"
    by simp
  have u: "baseApiUrl unselected_state \<noteq> []"
    by code_simp
  have j: "join '','' (map String_int (inViewIds unselected_state)) = ''1,2''"
    by code_simp
  note t = neighborhood_filter [of unselected_state server_no_rows]
  from t v have e: "inViewIds unselected_state = baseNeighborhoodIds unselected_state"
    by blast
  with b have "inViewIds unselected_state \<noteq> []"
    by simp
  with u t have "\<exists>prm. snd (fetchIncidents server_no_rows unselected_state)
                = [GET_incidents (baseApiUrl unselected_state @ ''/incidents'') prm]
             \<and> p_neighborhood prm = Some (join '','' (map String_int (inViewIds unselected_state)))"
    by blast
  then have q: "\<exists>prm. snd (fetchIncidents server_no_rows unselected_state)
                = [GET_incidents (baseApiUrl unselected_state @ ''/incidents'') prm]
             \<and> p_neighborhood prm = Some ''1,2''"
    unfolding j .
  from neighborhood_filter [of "example_state\<lparr>visibleNeighborhoodIds := [2, 5]\<rparr>"] w
  have "set (inViewIds (example_state\<lparr>visibleNeighborhoodIds := [2, 5]\<rparr>))
       = set (baseNeighborhoodIds (example_state\<lparr>visibleNeighborhoodIds := [2, 5]\<rparr>))
           \<inter> set (visibleNeighborhoodIds (example_state\<lparr>visibleNeighborhoodIds := [2, 5]\<rparr>))"
    by presburger
  with v b e i q show ?thesis by (intro conjI)
qed

section \<open>Lemmas about the neighborhood counts\<close>

lemma fetchIncidents_skip:
  assumes "inViewIds s = []" and "baseApiUrl s \<noteq> []"
  shows "fst (fetchIncidents fetch s)
           = (updateNeighborhoodCountsFromIncidents
                (s\<lparr>isLoadingCrimes := True, loadError := '''', incidents := []\<rparr>))
               \<lparr>isLoadingCrimes := False\<rparr>"
  using assms by (simp add: fetchIncidents_def Let_def)

lemma update_no_incidents:
  assumes "incidents s = []"
  shows "neighborhoods (updateNeighborhoodCountsFromIncidents s)
           = map (update_neighborhood (counts_init (neighborhoods s))) (neighborhoods s)"
  using assms by (simp add: updateNeighborhoodCountsFromIncidents_def counts_of_def)

lemma update_neighborhood_id [simp]: "n_id (update_neighborhood counts n) = n_id n"
  by (simp add: update_neighborhood_def Let_def split: option.splits)

lemma update_neighborhood_crimes:
  "n_crimes (update_neighborhood counts n) = (case counts (n_id n) of None \<Rightarrow> 0 | Some k \<Rightarrow> k)"
  by (simp add: update_neighborhood_def Let_def split: option.splits)

lemma incidents_update [simp]:
  "incidents (updateNeighborhoodCountsFromIncidents s) = incidents s"
  by (simp add: updateNeighborhoodCountsFromIncidents_def)

text \<open>
  Until a base URL is set nothing has been loaded: \<open>incidents\<close> is assigned only by
  \<open>fetchIncidents\<close> behind its guard on the base URL, \<open>neighborhoods\<close> only by the
  loading that follows the URL dialog, and the base URL is never taken back. The
  start-up state has this property and \<open>fetchIncidents\<close> keeps it.
\<close>

lemma fetchIncidents_no_url:
  assumes "baseApiUrl s = []"
  shows "fetchIncidents fetch s = (s, [])"
  using assms by (simp add: fetchIncidents_def)

lemma baseApiUrl_fetchIncidents [simp]:
  "baseApiUrl (fst (fetchIncidents fetch s)) = baseApiUrl s"
  by (simp add: fetchIncidents_def Let_def updateNeighborhoodCountsFromIncidents_def
      split: response.splits)

lemma nothing_loaded_initial:
  "baseApiUrl initial_state = [] \<longrightarrow>
     incidents initial_state = [] \<and> neighborhoods initial_state = []"
  by (simp add: initial_state_def)

lemma nothing_loaded_fetchIncidents:
  assumes "baseApiUrl s = [] \<longrightarrow> incidents s = [] \<and> neighborhoods s = []"
  shows "baseApiUrl (fst (fetchIncidents fetch s)) = [] \<longrightarrow>
           incidents (fst (fetchIncidents fetch s)) = []
           \<and> neighborhoods (fst (fetchIncidents fetch s)) = []"
  using assms by (auto simp: fetchIncidents_no_url)

section \<open>The short circuit of the incident query\<close>

text \<open>
  C3, as the code has it, in every state where nothing is loaded before a base URL is
  set. Whenever the effective neighborhood ids are empty, \<open>fetchIncidents\<close> short-circuits:
  the incident list becomes empty, the count of every neighborhood is recomputed to
  zero, and no request is issued. When every neighborhood is unselected and no id is
  visible, the effective ids are the ids of all neighborhoods: the query is skipped
  only if no neighborhood is loaded, and otherwise exactly one request goes out, which
  carries the ids of all neighborhoods.
\<close>

theorem fetchIncidents_short_circuit:
  assumes "baseApiUrl s = [] \<longrightarrow> incidents s = [] \<and> neighborhoods s = []"
  shows
  "(inViewIds s = [] \<longrightarrow>
      snd (fetchIncidents fetch s) = []
      \<and> incidents (fst (fetchIncidents fetch s)) = []
      \<and> (\<forall>n \<in> set (neighborhoods (fst (fetchIncidents fetch s))). n_crimes n = 0)
      \<and> map n_id (neighborhoods (fst (fetchIncidents fetch s))) = map n_id (neighborhoods s))
   \<and> ((\<forall>n \<in> set (neighborhoods s). \<not> n_selected n) \<and> visibleNeighborhoodIds s = [] \<longrightarrow>
        inViewIds s = map n_id (neighborhoods s)
        \<and> (neighborhoods s = [] \<longrightarrow> snd (fetchIncidents fetch s) = [])
        \<and> (neighborhoods s \<noteq> [] \<longrightarrow>
             (\<exists>prm. snd (fetchIncidents fetch s)
                      = [GET_incidents (baseApiUrl s @ ''/incidents'') prm]
                \<and> p_neighborhood prm
                      = Some (join '','' (map String_int (map n_id (neighborhoods s)))))))"
proof (intro conjI impI)
  assume e: "inViewIds s = []"
  then show "snd (fetchIncidents fetch s) = []"
    by (rule fetchIncidents_no_request)
  show "incidents (fst (fetchIncidents fetch s)) = []"
  proof (cases "baseApiUrl s = []")
    case True
    with assms show ?thesis by (simp add: fetchIncidents_no_url)
  next
    case False
    show ?thesis by (simp add: fetchIncidents_skip [OF e False])
  qed
  show "\<forall>n \<in> set (neighborhoods (fst (fetchIncidents fetch s))). n_crimes n = 0"
  proof (cases "baseApiUrl s = []")
    case True
    with assms show ?thesis by (simp add: fetchIncidents_no_url)
  next
    case False
    show ?thesis
      by (auto simp: fetchIncidents_skip [OF e False] update_no_incidents
          update_neighborhood_crimes counts_init_eq)
  qed
  show "map n_id (neighborhoods (fst (fetchIncidents fetch s))) = map n_id (neighborhoods s)"
  proof (cases "baseApiUrl s = []")
    case True
    then show ?thesis by (simp add: fetchIncidents_no_url)
  next
    case False
    show ?thesis by (simp add: fetchIncidents_skip [OF e False] update_no_incidents)
  qed
next
  assume a: "(\<forall>n \<in> set (neighborhoods s). \<not> n_selected n) \<and> visibleNeighborhoodIds s = []"
  then show all: "inViewIds s = map n_id (neighborhoods s)"
    by (simp add: inViewIds_def baseNeighborhoodIds_def selectedNeighborhoodIds_def
        filter_empty_conv)
  show "snd (fetchIncidents fetch s) = []" if "neighborhoods s = []"
  proof -
    from all that have "inViewIds s = []" by simp
    then show ?thesis by (rule fetchIncidents_no_request)
  qed
  show "\<exists>prm. snd (fetchIncidents fetch s)
                      = [GET_incidents (baseApiUrl s @ ''/incidents'') prm]
                \<and> p_neighborhood prm
                      = Some (join '','' (map String_int (map n_id (neighborhoods s))))"
    if ne: "neighborhoods s \<noteq> []"
  proof -
    from assms ne have u: "baseApiUrl s \<noteq> []" by blast
    from all ne have i: "inViewIds s \<noteq> []" by simp
    have "snd (fetchIncidents fetch s)
            = [GET_incidents (baseApiUrl s @ ''/incidents'') (query_params s)]"
      using u i by (rule fetchIncidents_request)
    moreover have "p_neighborhood (query_params s)
            = Some (join '','' (map String_int (map n_id (neighborhoods s))))"
      using i all by (simp add: query_params_def)
    ultimately show ?thesis by blast
  qed
qed

text \<open>The theorem where the viewport shows no candidate neighborhood: nothing is asked,
  the displayed incident goes away and both counts are zero; at start-up, where there
  is nothing to ask for; and where both checkboxes are cleared and nothing is visible:
  both ids are effective and the request carries them.\<close>

theorem fetchIncidents_short_circuit_witness:
  "inViewIds offscreen_state = []
   \<and> baseApiUrl offscreen_state \<noteq> []
   \<and> length (incidents offscreen_state) = 1
   \<and> snd (fetchIncidents server_no_rows offscreen_state) = []
   \<and> incidents (fst (fetchIncidents server_no_rows offscreen_state)) = []
   \<and> map n_crimes (neighborhoods (fst (fetchIncidents server_no_rows offscreen_state))) = [0, 0]
   \<and> baseApiUrl initial_state = []
   \<and> incidents initial_state = [] \<and> neighborhoods initial_state = []
   \<and> snd (fetchIncidents server_no_rows initial_state) = []
   \<and> incidents (fst (fetchIncidents server_no_rows initial_state)) = []
   \<and> map n_selected (neighborhoods unselected_state) = [False, False]
   \<and> visibleNeighborhoodIds unselected_state = []
   \<and> inViewIds unselected_state = map n_id (neighborhoods unselected_state)
   \<and> (\<exists>prm. snd (fetchIncidents server_no_rows unselected_state)
                = [GET_incidents (baseApiUrl unselected_state @ ''/incidents'') prm]
            \<and> p_neighborhood prm = Some ''1,2'')"
proof -
  have e: "inViewIds offscreen_state = []"
    by code_simp
  have u: "baseApiUrl offscreen_state \<noteq> []"
    by code_simp
  then have inv: "baseApiUrl offscreen_state = [] \<longrightarrow>
                    incidents offscreen_state = [] \<and> neighborhoods offscreen_state = []"
    by simp
  have l: "length (incidents offscreen_state) = 1"
    by code_simp
  have c: "map n_crimes (neighborhoods (fst (fetchIncidents server_no_rows offscreen_state)))
             = [0, 0]"
    by code_simp
  note t = fetchIncidents_short_circuit
             [of offscreen_state server_no_rows, OF inv, THEN conjunct1, THEN mp, OF e]
  from t have r: "snd (fetchIncidents server_no_rows offscreen_state) = []"
    by (rule conjunct1)
  from t [THEN conjunct2]
  have i: "incidents (fst (fetchIncidents server_no_rows offscreen_state)) = []"
    by (rule conjunct1)
  have u0: "baseApiUrl initial_state = []"
    and i0: "incidents initial_state = []" and n0: "neighborhoods initial_state = []"
    by (simp_all add: initial_state_def)
  then have inv0: "baseApiUrl initial_state = [] \<longrightarrow>
                    incidents initial_state = [] \<and> neighborhoods initial_state = []"
    by simp
  have e0: "inViewIds initial_state = []"
    by code_simp
  note t0 = fetchIncidents_short_circuit
             [of initial_state server_no_rows, OF inv0, THEN conjunct1, THEN mp, OF e0]
  from t0 have r0: "snd (fetchIncidents server_no_rows initial_state) = []"
    by (rule conjunct1)
  from t0 [THEN conjunct2]
  have j0: "incidents (fst (fetchIncidents server_no_rows initial_state)) = []"
    by (rule conjunct1)
  have s: "map n_selected (neighborhoods unselected_state) = [False, False]"
    by code_simp
  have v: "visibleNeighborhoodIds unselected_state = []"
    by code_simp
  have u2: "baseApiUrl unselected_state \<noteq> []"
    by code_simp
  then have inv2: "baseApiUrl unselected_state = [] \<longrightarrow>
                    incidents unselected_state = [] \<and> neighborhoods unselected_state = []"
    by simp
  have n2: "neighborhoods unselected_state \<noteq> []"
    by code_simp
  have j: "join '','' (map String_int (map n_id (neighborhoods unselected_state))) = ''1,2''"
    by code_simp
  have "set (map n_selected (neighborhoods unselected_state)) = {False}"
    unfolding s by simp
  then have a: "\<forall>n \<in> set (neighborhoods unselected_state). \<not> n_selected n"
    by auto
  note t2 = fetchIncidents_short_circuit
              [of unselected_state server_no_rows, OF inv2, THEN conjunct2, THEN mp,
               OF conjI [OF a v]]
  from t2 have i2: "inViewIds unselected_state = map n_id (neighborhoods unselected_state)"
    by (rule conjunct1)
  from t2 [THEN conjunct2, THEN conjunct2, THEN mp, OF n2]
  have r2: "\<exists>prm. snd (fetchIncidents server_no_rows unselected_state)
                = [GET_incidents (baseApiUrl unselected_state @ ''/incidents'') prm]
            \<and> p_neighborhood prm = Some ''1,2''"
    unfolding j .
  from e u l r i c u0 i0 n0 r0 j0 s v i2 r2 show ?thesis by (intro conjI)
qed

text \<open>
  The scenario as the specification words it fails: with both neighborhoods unselected
  and nothing visible, the request for neighborhoods 1 and 2 is issued.
\<close>

theorem fetchIncidents_short_circuit_counterexample:
  "map n_selected (neighborhoods unselected_state) = [False, False]
   \<and> visibleNeighborhoodIds unselected_state = []
   \<and> snd (fetchIncidents server_no_rows unselected_state)
       = [GET_incidents ''http://localhost:8000/incidents''
            \<lparr>p_limit = Fin 1000, p_start_date = None, p_end_date = None,
             p_code = Some ''1,2,3'', p_neighborhood = Some ''1,2''\<rparr>]"
proof (intro conjI)
  show "map n_selected (neighborhoods unselected_state) = [False, False]"
    by code_simp
  show "visibleNeighborhoodIds unselected_state = []"
    by code_simp
  show "snd (fetchIncidents server_no_rows unselected_state)
       = [GET_incidents ''http://localhost:8000/incidents''
            \<lparr>p_limit = Fin 1000, p_start_date = None, p_end_date = None,
             p_code = Some ''1,2,3'', p_neighborhood = Some ''1,2''\<rparr>]"
    by code_simp
qed


section \<open>The parameters of the incident query\<close>

lemma selectedCodes_set:
  "set (selectedCodes s) =
     (\<Union>g \<in> {g \<in> set (incidentTypeGroups s).
                 g_type g \<in> g_type ` {h \<in> set (incidentTypeGroups s). g_selected h}}.
          set (g_codes g))"
  by (auto simp: selectedCodes_def selectedTypes_def filter_empty_conv)

text \<open>
  C8, as the code has it. The query of \<open>fetchIncidents\<close> carries as \<open>limit\<close> the value of
  \<open>maxIncidents\<close> whenever that is a number greater than zero, whole or not, and the
  default 1000 otherwise (zero, a negative number, NaN, the empty field). The \<open>code\<close>
  parameter is the selected codes, each once, in ascending order and joined by commas;
  it is left out when there is no selected code, in particular when no type group is
  selected. The selected codes are the codes of the groups whose type is the type of a
  selected group, which for groups of distinct types are the selected groups.
\<close>

theorem fetchIncidents_limit_and_codes:
  "(baseApiUrl s \<noteq> [] \<and> inViewIds s \<noteq> [] \<longrightarrow>
      (\<exists>prm. snd (fetchIncidents fetch s)
                = [GET_incidents (baseApiUrl s @ ''/incidents'') prm]
         \<and> (\<forall>x. maxIncidents (filters s) = Num x \<and> js_gt0 x \<longrightarrow> p_limit prm = x)
         \<and> (maxIncidents (filters s) = EmptyString
              \<or> (\<exists>x. maxIncidents (filters s) = Num x \<and> \<not> js_gt0 x)
             \<longrightarrow> p_limit prm = Fin 1000)
         \<and> p_code prm =
             (if selectedCodes s = [] then None
              else Some (join '','' (map String_int (selectedCodes s))))))
   \<and> sorted (selectedCodes s) \<and> distinct (selectedCodes s)
   \<and> set (selectedCodes s) =
       (\<Union>g \<in> {g \<in> set (incidentTypeGroups s).
                   g_type g \<in> g_type ` {h \<in> set (incidentTypeGroups s). g_selected h}}.
            set (g_codes g))
   \<and> (distinct (map g_type (incidentTypeGroups s)) \<longrightarrow>
        set (selectedCodes s) =
          (\<Union>g \<in> {g \<in> set (incidentTypeGroups s). g_selected g}. set (g_codes g)))
   \<and> ((\<forall>g \<in> set (incidentTypeGroups s). \<not> g_selected g) \<longrightarrow> selectedCodes s = [])"
proof (intro conjI impI)
  assume a: "baseApiUrl s \<noteq> [] \<and> inViewIds s \<noteq> []"
  then have r: "snd (fetchIncidents fetch s)
                = [GET_incidents (baseApiUrl s @ ''/incidents'') (query_params s)]"
    by (simp add: fetchIncidents_request)
  have l1: "\<forall>x. maxIncidents (filters s) = Num x \<and> js_gt0 x \<longrightarrow> p_limit (query_params s) = x"
    by (simp add: query_params_def limit_of_def)
  have l2: "maxIncidents (filters s) = EmptyString
              \<or> (\<exists>x. maxIncidents (filters s) = Num x \<and> \<not> js_gt0 x)
             \<longrightarrow> p_limit (query_params s) = Fin 1000"
    by (auto simp: query_params_def limit_of_def)
  have c: "p_code (query_params s) =
             (if selectedCodes s = [] then None
              else Some (join '','' (map String_int (selectedCodes s))))"
    by (simp add: query_params_def)
  show "\<exists>prm. snd (fetchIncidents fetch s)
                = [GET_incidents (baseApiUrl s @ ''/incidents'') prm]
         \<and> (\<forall>x. maxIncidents (filters s) = Num x \<and> js_gt0 x \<longrightarrow> p_limit prm = x)
         \<and> (maxIncidents (filters s) = EmptyString
              \<or> (\<exists>x. maxIncidents (filters s) = Num x \<and> \<not> js_gt0 x)
             \<longrightarrow> p_limit prm = Fin 1000)
         \<and> p_code prm =
             (if selectedCodes s = [] then None
              else Some (join '','' (map String_int (selectedCodes s))))"
    by (rule exI [of _ "query_params s"]) (intro conjI r l1 l2 c)
next
  show "sorted (selectedCodes s)" and "distinct (selectedCodes s)"
    by (simp_all add: selectedCodes_def)
  show "set (selectedCodes s) =
       (\<Union>g \<in> {g \<in> set (incidentTypeGroups s).
                   g_type g \<in> g_type ` {h \<in> set (incidentTypeGroups s). g_selected h}}.
            set (g_codes g))"
    by (rule selectedCodes_set)
  show "set (selectedCodes s) =
          (\<Union>g \<in> {g \<in> set (incidentTypeGroups s). g_selected g}. set (g_codes g))"
    if "distinct (map g_type (incidentTypeGroups s))"
    using that unfolding selectedCodes_set by (auto simp: distinct_map inj_on_def)
  show "selectedCodes s = []" if "\<forall>g \<in> set (incidentTypeGroups s). \<not> g_selected g"
    using that by (auto simp: selectedCodes_def selectedTypes_def filter_empty_conv)
qed

text \<open>The theorem at the loaded application: the limit is the field's 1000 and all
  three codes are asked for. And with the field emptied and no type selected: the
  limit is the default and there is no \<open>code\<close> parameter.\<close>

theorem fetchIncidents_limit_and_codes_witness:
  "baseApiUrl example_state \<noteq> [] \<and> inViewIds example_state = [1, 2]
   \<and> maxIncidents (filters example_state) = Num (Fin 1000) \<and> js_gt0 (Fin 1000)
   \<and> selectedCodes example_state = [1, 2, 3]
   \<and> (\<exists>prm. snd (fetchIncidents server_no_rows example_state)
                = [GET_incidents (baseApiUrl example_state @ ''/incidents'') prm]
          \<and> p_limit prm = Fin 1000
          \<and> p_code prm = Some ''1,2,3'')
   \<and> maxIncidents (filters cleared_state) = EmptyString
   \<and> map g_selected (incidentTypeGroups cleared_state) = [False, False]
   \<and> selectedCodes cleared_state = []
   \<and> (\<exists>prm. snd (fetchIncidents server_no_rows cleared_state)
                = [GET_incidents (baseApiUrl cleared_state @ ''/incidents'') prm]
          \<and> p_limit prm = Fin 1000
          \<and> p_code prm = None)"
proof -
  have u: "baseApiUrl example_state \<noteq> []"
    by code_simp
  have i: "inViewIds example_state = [1, 2]"
    by code_simp
  have m: "maxIncidents (filters example_state) = Num (Fin 1000)"
    by code_simp
  have g: "js_gt0 (Fin 1000)"
    by simp
  have c: "selectedCodes example_state = [1, 2, 3]"
    by code_simp
  have j: "join '','' (map String_int [1, 2, 3]) = ''1,2,3''"
    by code_simp
  from i have n: "inViewIds example_state \<noteq> []"
    by simp
  note fetchIncidents_limit_and_codes
         [of example_state server_no_rows, THEN conjunct1, THEN mp, OF conjI [OF u n]]
  then obtain prm where p: "snd (fetchIncidents server_no_rows example_state)
                = [GET_incidents (baseApiUrl example_state @ ''/incidents'') prm]"
      and l: "\<forall>x. maxIncidents (filters example_state) = Num x \<and> js_gt0 x \<longrightarrow> p_limit prm = x"
      and k: "p_code prm =
             (if selectedCodes example_state = [] then None
              else Some (join '','' (map String_int (selectedCodes example_state))))"
    by blast
  from l m g have "p_limit prm = Fin 1000"
    by blast
  moreover from k c j have "p_code prm = Some ''1,2,3''"
    by simp
  ultimately have q: "\<exists>prm. snd (fetchIncidents server_no_rows example_state)
                = [GET_incidents (baseApiUrl example_state @ ''/incidents'') prm]
          \<and> p_limit prm = Fin 1000
          \<and> p_code prm = Some ''1,2,3''"
    using p by blast
  have u': "baseApiUrl cleared_state \<noteq> []"
    by code_simp
  have n': "inViewIds cleared_state \<noteq> []"
    by code_simp
  have m': "maxIncidents (filters cleared_state) = EmptyString"
    by code_simp
  have s': "map g_selected (incidentTypeGroups cleared_state) = [False, False]"
    by code_simp
  then have "set (map g_selected (incidentTypeGroups cleared_state)) = {False}"
    by simp
  then have a': "\<forall>g \<in> set (incidentTypeGroups cleared_state). \<not> g_selected g"
    by auto
  note full = fetchIncidents_limit_and_codes [of cleared_state server_no_rows]
  from full a' have c': "selectedCodes cleared_state = []"
    by blast
  note full [THEN conjunct1, THEN mp, OF conjI [OF u' n']]
  then obtain prm' where p': "snd (fetchIncidents server_no_rows cleared_state)
                = [GET_incidents (baseApiUrl cleared_state @ ''/incidents'') prm']"
      and l': "maxIncidents (filters cleared_state) = EmptyString
              \<or> (\<exists>x. maxIncidents (filters cleared_state) = Num x \<and> \<not> js_gt0 x)
             \<longrightarrow> p_limit prm' = Fin 1000"
      and k': "p_code prm' =
             (if selectedCodes cleared_state = [] then None
              else Some (join '','' (map String_int (selectedCodes cleared_state))))"
    by blast
  from l' m' have "p_limit prm' = Fin 1000"
    by blast
  moreover from k' c' have "p_code prm' = None"
    by simp
  ultimately have q': "\<exists>prm. snd (fetchIncidents server_no_rows cleared_state)
                = [GET_incidents (baseApiUrl cleared_state @ ''/incidents'') prm]
          \<and> p_limit prm = Fin 1000
          \<and> p_code prm = None"
    using p' by blast
  from u i m g c q m' s' c' q' show ?thesis by (intro conjI)
qed

text \<open>With 2.5 in the field, which is not a positive integer, the limit sent is 2.5 and
  not the default.\<close>

theorem fetchIncidents_limit_counterexample:
  "maxIncidents (filters fractional_limit_state) = Num (Fin 2.5)
   \<and> snd (fetchIncidents server_no_rows fractional_limit_state)
       = [GET_incidents ''http://localhost:8000/incidents''
            \<lparr>p_limit = Fin 2.5, p_start_date = None, p_end_date = None,
             p_code = Some ''1,2,3'', p_neighborhood = Some ''1,2''\<rparr>]"
proof (intro conjI)
  show "maxIncidents (filters fractional_limit_state) = Num (Fin 2.5)"
    by code_simp
  show "snd (fetchIncidents server_no_rows fractional_limit_state)
       = [GET_incidents ''http://localhost:8000/incidents''
            \<lparr>p_limit = Fin 2.5, p_start_date = None, p_end_date = None,
             p_code = Some ''1,2,3'', p_neighborhood = Some ''1,2''\<rparr>]"
    by code_simp
qed

section \<open>The neighborhood aggregator\<close>

lemma counts_add_apply:
  "counts_add c m i =
     (case m i of None \<Rightarrow> None
      | Some k \<Rightarrow> Some (k + (if neighborhood_number c = i then 1 else 0)))"
  by (simp add: counts_add_def split: option.splits)

lemma fold_counts_add:
  "fold counts_add crimes m i =
     (case m i of None \<Rightarrow> None
      | Some k \<Rightarrow> Some (k + length (filter (\<lambda>c. neighborhood_number c = i) crimes)))"
proof (induction crimes arbitrary: m)
  case Nil
  then show ?case by (simp split: option.splits)
next
  case (Cons c cs)
  have "fold counts_add (c # cs) m i = fold counts_add cs (counts_add c m) i"
    by simp
  also have "\<dots> = (case counts_add c m i of None \<Rightarrow> None
      | Some k \<Rightarrow> Some (k + length (filter (\<lambda>c. neighborhood_number c = i) cs)))"
    by (rule Cons.IH)
  also have "\<dots> = (case m i of None \<Rightarrow> None
      | Some k \<Rightarrow> Some (k + length (filter (\<lambda>c. neighborhood_number c = i) (c # cs))))"
    by (simp add: counts_add_apply [of c m i] split: option.splits)
  finally show ?case .
qed

lemma counts_of_eq:
  "counts_of ns crimes i =
     (if i \<in> n_id ` set ns
      then Some (length (filter (\<lambda>c. neighborhood_number c = i) crimes)) else None)"
  by (simp add: counts_of_def fold_counts_add counts_init_eq)

lemma update_neighborhood_eq:
  "update_neighborhood counts n =
     n\<lparr>n_crimes := (case counts (n_id n) of None \<Rightarrow> 0 | Some k \<Rightarrow> k),
       n_marker := map_option
          (\<lambda>m. m\<lparr>popup := popup_text (n_name n) (case counts (n_id n) of None \<Rightarrow> 0 | Some k \<Rightarrow> k)\<rparr>)
          (n_marker n)\<rparr>"
  by (cases "n_marker n") (simp_all add: update_neighborhood_def Let_def bindPopup_def)

lemma sum_matching:
  assumes "finite A"
  shows "(\<Sum>i \<in> A. length (filter (\<lambda>c. neighborhood_number c = i) crimes))
           = length (filter (\<lambda>c. neighborhood_number c \<in> A) crimes)"
proof (induction crimes)
  case Nil
  then show ?case by simp
next
  case (Cons c cs)
  have "(\<Sum>i \<in> A. length (filter (\<lambda>c. neighborhood_number c = i) (c # cs)))
      = (\<Sum>i \<in> A. (if neighborhood_number c = i then 1 else 0)
                    + length (filter (\<lambda>c. neighborhood_number c = i) cs))"
    by (rule sum.cong) auto
  also have "\<dots> = (\<Sum>i \<in> A. if neighborhood_number c = i then 1 else 0)
                   + (\<Sum>i \<in> A. length (filter (\<lambda>c. neighborhood_number c = i) cs))"
    by (rule sum.distrib)
  also have "(\<Sum>i \<in> A. if neighborhood_number c = i then 1 else 0)
               = (if neighborhood_number c \<in> A then 1 else (0::nat))"
    using assms by (simp add: sum.delta')
  finally show ?case using Cons.IH by simp
qed

text \<open>
  C5. For every incident list and every list of neighborhoods,
  \<open>updateNeighborhoodCountsFromIncidents\<close> gives each neighborhood, whatever its old
  count was, the number of incidents whose \<open>neighborhood_number\<close> is its id (zero when
  none is), and binds to each neighborhood's marker the label
  "<name>: <count> crime" when the count is exactly 1 and "<name>: <count> crimes"
  otherwise; nothing else in the state changes. The counts, summed over the neighborhood
  ids, are the number of incidents whose \<open>neighborhood_number\<close> is a known id: unmatched
  incidents are counted nowhere, and when every incident matches, the sum is the
  number of incidents (also as the sum over the list of neighborhoods, whose ids are
  then taken to be distinct). The function is total: no input makes it fail.
\<close>

theorem neighborhood_counts:
  "updateNeighborhoodCountsFromIncidents s =
     s\<lparr>neighborhoods :=
         map (\<lambda>n. n\<lparr>n_crimes := matching (incidents s) (n_id n),
                    n_marker := map_option
                      (\<lambda>m. m\<lparr>popup := n_name n @ '': '' @ String_nat (matching (incidents s) (n_id n))
                              @ (if matching (incidents s) (n_id n) = 1 then '' crime''
                                 else '' crimes'')\<rparr>)
                      (n_marker n)\<rparr>)
           (neighborhoods s)\<rparr>
   \<and> (\<Sum>i \<in> n_id ` set (neighborhoods s). matching (incidents s) i)
       = length (filter (\<lambda>c. neighborhood_number c \<in> n_id ` set (neighborhoods s)) (incidents s))
   \<and> ((\<forall>c \<in> set (incidents s). neighborhood_number c \<in> n_id ` set (neighborhoods s)) \<longrightarrow>
        (\<Sum>i \<in> n_id ` set (neighborhoods s). matching (incidents s) i) = length (incidents s))
   \<and> ((\<forall>c \<in> set (incidents s). neighborhood_number c \<in> n_id ` set (neighborhoods s))
        \<and> distinct (map n_id (neighborhoods s)) \<longrightarrow>
        sum_list (map n_crimes (neighborhoods (updateNeighborhoodCountsFromIncidents s)))
          = length (incidents s))"
proof (intro conjI impI)
  have cnt: "(case counts_of (neighborhoods s) (incidents s) (n_id n) of None \<Rightarrow> 0 | Some k \<Rightarrow> k)
               = matching (incidents s) (n_id n)" if "n \<in> set (neighborhoods s)" for n
    using that by (simp add: counts_of_eq matching_def)
  have upd: "update_neighborhood (counts_of (neighborhoods s) (incidents s)) n =
        n\<lparr>n_crimes := matching (incidents s) (n_id n),
          n_marker := map_option
            (\<lambda>m. m\<lparr>popup := n_name n @ '': '' @ String_nat (matching (incidents s) (n_id n))
                    @ (if matching (incidents s) (n_id n) = 1 then '' crime''
                       else '' crimes'')\<rparr>)
            (n_marker n)\<rparr>" if "n \<in> set (neighborhoods s)" for n
    unfolding update_neighborhood_eq cnt [OF that] popup_text_def by simp
  show main: "updateNeighborhoodCountsFromIncidents s =
     s\<lparr>neighborhoods :=
         map (\<lambda>n. n\<lparr>n_crimes := matching (incidents s) (n_id n),
                    n_marker := map_option
                      (\<lambda>m. m\<lparr>popup := n_name n @ '': '' @ String_nat (matching (incidents s) (n_id n))
                              @ (if matching (incidents s) (n_id n) = 1 then '' crime''
                                 else '' crimes'')\<rparr>)
                      (n_marker n)\<rparr>)
           (neighborhoods s)\<rparr>"
    unfolding updateNeighborhoodCountsFromIncidents_def Let_def
    using upd by (simp cong: map_cong)
  show total: "(\<Sum>i \<in> n_id ` set (neighborhoods s). matching (incidents s) i)
       = length (filter (\<lambda>c. neighborhood_number c \<in> n_id ` set (neighborhoods s)) (incidents s))"
    unfolding matching_def by (rule sum_matching) simp
  show all: "(\<Sum>i \<in> n_id ` set (neighborhoods s). matching (incidents s) i) = length (incidents s)"
    if "\<forall>c \<in> set (incidents s). neighborhood_number c \<in> n_id ` set (neighborhoods s)"
    using that unfolding total by simp
  show "sum_list (map n_crimes (neighborhoods (updateNeighborhoodCountsFromIncidents s)))
          = length (incidents s)"
    if h: "(\<forall>c \<in> set (incidents s). neighborhood_number c \<in> n_id ` set (neighborhoods s))
        \<and> distinct (map n_id (neighborhoods s))"
  proof -
    have "map n_crimes (neighborhoods (updateNeighborhoodCountsFromIncidents s))
            = map (matching (incidents s)) (map n_id (neighborhoods s))"
      unfolding main by (simp add: comp_def)
    then have "sum_list (map n_crimes (neighborhoods (updateNeighborhoodCountsFromIncidents s)))
            = (\<Sum>i \<in> set (map n_id (neighborhoods s)). matching (incidents s) i)"
      using h by (simp only: sum_list_distinct_conv_sum_set)
    with all h show ?thesis by simp
  qed
qed

text \<open>The scenario of the specification: neighborhoods A and B, incidents in 1, 1 and 2.
  With a fourth incident in the unknown neighborhood 9 the counts are the same and
  their sum is 3.\<close>

theorem neighborhood_counts_witness:
  "map neighborhood_number (incidents counted_state) = [1, 1, 2]
   \<and> map n_id (neighborhoods counted_state) = [1, 2]
   \<and> map n_crimes (neighborhoods (updateNeighborhoodCountsFromIncidents counted_state)) = [2, 1]
   \<and> map n_marker (neighborhoods (updateNeighborhoodCountsFromIncidents counted_state))
       = [Some \<lparr>popup = ''A: 2 crimes''\<rparr>, Some \<lparr>popup = ''B: 1 crime''\<rparr>]
   \<and> sum_list (map n_crimes (neighborhoods (updateNeighborhoodCountsFromIncidents counted_state)))
       = length (incidents counted_state)
   \<and> map neighborhood_number (incidents stray_state) = [1, 1, 2, 9]
   \<and> map n_crimes (neighborhoods (updateNeighborhoodCountsFromIncidents stray_state)) = [2, 1]
   \<and> (\<Sum>i \<in> n_id ` set (neighborhoods stray_state). matching (incidents stray_state) i) = 3"
proof -
  have i: "map neighborhood_number (incidents counted_state) = [1, 1, 2]"
    by code_simp
  have n: "map n_id (neighborhoods counted_state) = [1, 2]"
    by code_simp
  have c: "map n_crimes (neighborhoods (updateNeighborhoodCountsFromIncidents counted_state))
             = [2, 1]"
    by code_simp
  have m: "map n_marker (neighborhoods (updateNeighborhoodCountsFromIncidents counted_state))
       = [Some \<lparr>popup = ''A: 2 crimes''\<rparr>, Some \<lparr>popup = ''B: 1 crime''\<rparr>]"
    by code_simp
  have "set (map neighborhood_number (incidents counted_state))
          \<subseteq> set (map n_id (neighborhoods counted_state))"
    unfolding i n by simp
  then have h1: "\<forall>c \<in> set (incidents counted_state).
                   neighborhood_number c \<in> n_id ` set (neighborhoods counted_state)"
    by auto
  have h2: "distinct (map n_id (neighborhoods counted_state))"
    unfolding n by simp
  note neighborhood_counts
         [of counted_state, THEN conjunct2, THEN conjunct2, THEN conjunct2, THEN mp,
          OF conjI [OF h1 h2]]
  moreover have si: "map neighborhood_number (incidents stray_state) = [1, 1, 2, 9]"
    by code_simp
  moreover have "map n_crimes (neighborhoods (updateNeighborhoodCountsFromIncidents stray_state))
                   = [2, 1]"
    by code_simp
  moreover have "(\<Sum>i \<in> n_id ` set (neighborhoods stray_state). matching (incidents stray_state) i)
                   = 3"
  proof -
    have sn: "map n_id (neighborhoods stray_state) = [1, 2]"
      by code_simp
    have "length (filter (\<lambda>c. neighborhood_number c \<in> n_id ` set (neighborhoods stray_state))
                    (incidents stray_state))
            = length (filter (\<lambda>k. k \<in> set (map n_id (neighborhoods stray_state)))
                    (map neighborhood_number (incidents stray_state)))"
      by (simp add: filter_map comp_def)
    also have "\<dots> = 3"
      unfolding si sn by simp
    finally show ?thesis
      using neighborhood_counts [of stray_state, THEN conjunct2, THEN conjunct1] by simp
  qed
  ultimately show ?thesis using i n c m by (intro conjI)
qed

section \<open>The groups built by \<open>loadCodes\<close>\<close>

lemma build_groups_snoc: "build_groups (data @ [c]) = groupsMap_push c (build_groups data)"
  by (simp add: build_groups_def)

lemma groupsMap_has_iff: "groupsMap_has gs t \<longleftrightarrow> t \<in> g_type ` set gs"
  by (auto simp: groupsMap_has_def list_ex_iff)

lemma push_code_simps [simp]:
  "g_type (push_code c g) = g_type g"
  "g_selected (push_code c g) = g_selected g"
  "g_codes (push_code c g) = (if g_type g = c_type c then g_codes g @ [c_code c] else g_codes g)"
  by (simp_all add: push_code_def)

lemma groupsMap_push_eq:
  "groupsMap_push c gs =
     map (push_code c)
       (if c_type c \<in> g_type ` set gs then gs
        else gs @ [\<lparr>g_type = c_type c, g_codes = [], g_selected = True\<rparr>])"
  by (simp add: groupsMap_push_def Let_def groupsMap_has_iff push_code_def [abs_def])

lemma groups_inv_push:
  assumes "groups_inv data gs"
  shows "groups_inv (data @ [c]) (groupsMap_push c gs)"
proof (cases "c_type c \<in> g_type ` set gs")
  case True
  then have eq: "groupsMap_push c gs = map (push_code c) gs"
    by (simp add: groupsMap_push_eq)
  have ty: "map g_type (map (push_code c) gs) = map g_type gs"
    by simp
  from assms True have t: "c_type c \<in> c_type ` set data"
    by (simp add: groups_inv_def)
  have "distinct (map g_type (map (push_code c) gs))"
    using assms unfolding ty by (simp add: groups_inv_def)
  moreover have "set (map g_type (map (push_code c) gs)) = c_type ` set (data @ [c])"
    using assms t unfolding ty by (auto simp: groups_inv_def)
  moreover have "\<forall>g \<in> set (map (push_code c) gs). g_selected g \<and>
        g_codes g = map c_code (filter (\<lambda>d. c_type d = g_type g) (data @ [c]))"
    using assms by (auto simp: groups_inv_def)
  ultimately show ?thesis
    unfolding eq groups_inv_def by blast
next
  case False
  let ?new = "\<lparr>g_type = c_type c, g_codes = [], g_selected = True\<rparr>"
  from False have eq: "groupsMap_push c gs = map (push_code c) (gs @ [?new])"
    by (simp add: groupsMap_push_eq)
  have ty: "map g_type (map (push_code c) (gs @ [?new])) = map g_type gs @ [c_type c]"
    by simp
  from assms False have t: "c_type c \<notin> c_type ` set data"
    by (simp add: groups_inv_def)
  have none: "filter (\<lambda>d. c_type d = c_type c) data = []"
  proof (rule filter_False, rule ballI, rule notI)
    fix d assume "d \<in> set data" and "c_type d = c_type c"
    then have "c_type c \<in> c_type ` set data" by (metis image_eqI)
    with t show False by contradiction
  qed
  have "distinct (map g_type (map (push_code c) (gs @ [?new])))"
    using assms False unfolding ty by (simp add: groups_inv_def)
  moreover have "set (map g_type (map (push_code c) (gs @ [?new]))) = c_type ` set (data @ [c])"
    using assms unfolding ty by (auto simp: groups_inv_def)
  moreover have "\<forall>g \<in> set (map (push_code c) (gs @ [?new])). g_selected g \<and>
        g_codes g = map c_code (filter (\<lambda>d. c_type d = g_type g) (data @ [c]))"
    using assms none by (auto simp: groups_inv_def)
  ultimately show ?thesis
    unfolding eq groups_inv_def by blast
qed

lemma groups_inv_build: "groups_inv data (build_groups data)"
proof (induction data rule: rev_induct)
  case Nil
  show ?case by (simp add: build_groups_def groups_inv_def)
next
  case (snoc c data)
  then show ?case by (simp add: build_groups_snoc groups_inv_push)
qed


lemma set_insert_by [simp]: "set (insert_by cmp x xs) = insert x (set xs)"
  by (induction xs) auto

lemma set_sort_by [simp]: "set (sort_by cmp xs) = set xs"
  by (induction xs) (simp_all add: sort_by_def)

lemma length_insert_by [simp]: "length (insert_by cmp x xs) = Suc (length xs)"
  by (induction xs) auto

lemma length_sort_by [simp]: "length (sort_by cmp xs) = length xs"
  by (induction xs) (simp_all add: sort_by_def)

lemma distinct_map_insert_by:
  "distinct (map f (insert_by cmp x xs)) \<longleftrightarrow> distinct (map f (x # xs))"
  by (induction xs) auto

lemma distinct_map_sort_by [simp]:
  "distinct (map f (sort_by cmp xs)) \<longleftrightarrow> distinct (map f xs)"
proof (induction xs)
  case Nil
  show ?case by (simp add: sort_by_def)
next
  case (Cons x xs)
  have "sort_by cmp (x # xs) = insert_by cmp x (sort_by cmp xs)"
    by (simp add: sort_by_def)
  then show ?case
    using Cons.IH by (simp add: distinct_map_insert_by)
qed

lemma sorted_insert_by:
  assumes total: "\<And>a b. cmp a b \<le> 0 \<or> cmp b a \<le> 0"
    and trans: "\<And>a b c. cmp a b \<le> 0 \<Longrightarrow> cmp b c \<le> 0 \<Longrightarrow> cmp a c \<le> 0"
    and "sorted_wrt (\<lambda>a b. cmp a b \<le> 0) xs"
  shows "sorted_wrt (\<lambda>a b. cmp a b \<le> 0) (insert_by cmp x xs)"
  using assms(3)
proof (induction xs)
  case Nil
  show ?case by simp
next
  case (Cons y ys)
  show ?case
  proof (cases "cmp x y \<le> 0")
    case True
    with Cons.prems trans show ?thesis by auto
  next
    case False
    with total have "cmp y x \<le> 0" by blast
    with False Cons show ?thesis by auto
  qed
qed

lemma sorted_sort_by:
  assumes total: "\<And>a b. cmp a b \<le> 0 \<or> cmp b a \<le> 0"
    and trans: "\<And>a b c. cmp a b \<le> 0 \<Longrightarrow> cmp b c \<le> 0 \<Longrightarrow> cmp a c \<le> 0"
  shows "sorted_wrt (\<lambda>a b. cmp a b \<le> 0) (sort_by cmp xs)"
proof (induction xs)
  case Nil
  show ?case by (simp add: sort_by_def)
next
  case (Cons x xs)
  have "sort_by cmp (x # xs) = insert_by cmp x (sort_by cmp xs)"
    by (simp add: sort_by_def)
  with Cons.IH show ?case
    using sorted_insert_by [of cmp, OF total trans] by simp
qed


lemma codeUnitCompare_le_Nil: "codeUnitCompare [] b \<le> 0"
  by (cases b) simp_all

lemma codeUnitCompare_Cons_Nil: "\<not> codeUnitCompare (x # xs) [] \<le> 0"
  by simp

lemma codeUnitCompare_le_Cons:
  "codeUnitCompare (x # xs) (y # ys) \<le> 0 \<longleftrightarrow>
     (of_char x :: nat) < of_char y \<or>
     ((of_char x :: nat) = of_char y \<and> codeUnitCompare xs ys \<le> 0)"
  by auto

lemma codeUnitCompare_total: "codeUnitCompare a b \<le> 0 \<or> codeUnitCompare b a \<le> 0"
proof (induction a arbitrary: b)
  case Nil
  show ?case by (simp add: codeUnitCompare_le_Nil)
next
  case (Cons x xs)
  show ?case
  proof (cases b)
    case Nil
    then show ?thesis by (simp add: codeUnitCompare_le_Nil)
  next
    case (Cons y ys)
    with Cons.IH [of ys] show ?thesis
      unfolding Cons codeUnitCompare_le_Cons by linarith
  qed
qed

lemma codeUnitCompare_trans:
  "codeUnitCompare a b \<le> 0 \<Longrightarrow> codeUnitCompare b c \<le> 0 \<Longrightarrow> codeUnitCompare a c \<le> 0"
proof (induction a arbitrary: b c)
  case Nil
  show ?case by (rule codeUnitCompare_le_Nil)
next
  case (Cons x xs)
  from Cons.prems(1) obtain y ys where b: "b = y # ys"
    by (cases b) simp_all
  with Cons.prems(2) obtain z zs where c: "c = z # zs"
    by (cases c) simp_all
  from Cons.prems have
    1: "(of_char x :: nat) < of_char y \<or>
          ((of_char x :: nat) = of_char y \<and> codeUnitCompare xs ys \<le> 0)" and
    2: "(of_char y :: nat) < of_char z \<or>
          ((of_char y :: nat) = of_char z \<and> codeUnitCompare ys zs \<le> 0)"
    unfolding b c codeUnitCompare_le_Cons by blast+
  have "(of_char x :: nat) < of_char z \<or>
          ((of_char x :: nat) = of_char z \<and> codeUnitCompare xs zs \<le> 0)"
    using 1 2 Cons.IH [of ys zs] by linarith
  then show ?case
    unfolding c codeUnitCompare_le_Cons .
qed

lemma consistent_codeUnitCompare: "consistent_compare codeUnitCompare"
  unfolding consistent_compare_def
  using codeUnitCompare_total codeUnitCompare_trans by blast


lemma codeUnitCompare_lexord:
  "codeUnitCompare a b \<le> 0 \<longleftrightarrow>
     a = b \<or> (a, b) \<in> lexord {(x, y). (of_char x :: nat) < of_char y}"
proof (induction a arbitrary: b)
  case Nil
  show ?case by (cases b) (simp_all add: codeUnitCompare_le_Nil)
next
  case (Cons x xs)
  show ?case
  proof (cases b)
    case Nil
    then show ?thesis by simp
  next
    case (Cons y ys)
    show ?thesis
      unfolding Cons codeUnitCompare_le_Cons Cons.IH [of ys] lexord_cons_cons
      by auto
  qed
qed

lemma sorted_groups:
  assumes "consistent_compare cmp"
  shows "sorted_wrt (\<lambda>a b. cmp (g_type a) (g_type b) \<le> 0)
           (sort_by (\<lambda>a b. cmp (g_type a) (g_type b)) (gs :: type_group list))"
proof -
  have total: "cmp (g_type a) (g_type b) \<le> 0 \<or> cmp (g_type b) (g_type a) \<le> 0"
    for a b :: type_group
    using assms unfolding consistent_compare_def by blast
  have trans: "cmp (g_type a) (g_type c) \<le> 0"
    if "cmp (g_type a) (g_type b) \<le> 0" and "cmp (g_type b) (g_type c) \<le> 0"
    for a b c :: type_group
    using assms that unfolding consistent_compare_def by blast
  show ?thesis
    by (rule sorted_sort_by [of "\<lambda>a b. cmp (g_type a) (g_type b)" gs, OF total trans])
qed

lemma codes_disjoint:
  assumes d: "distinct (map c_code data)" and ne: "t \<noteq> u"
  shows "set (map c_code (filter (\<lambda>c. c_type c = t) data))
           \<inter> set (map c_code (filter (\<lambda>c. c_type c = u) data)) = {}"
proof (rule ccontr)
  assume "set (map c_code (filter (\<lambda>c. c_type c = t) data))
           \<inter> set (map c_code (filter (\<lambda>c. c_type c = u) data)) \<noteq> {}"
  then obtain x y where x: "x \<in> set data" "c_type x = t" and y: "y \<in> set data" "c_type y = u"
    and eq: "c_code x = c_code y"
    by auto
  from d have "inj_on c_code (set data)"
    by (simp add: distinct_map)
  with x y eq have "x = y"
    by (simp add: inj_on_def)
  with x y ne show False by simp
qed

text \<open>
  C4, as the code has it. When the server answers \<open>/codes\<close> with success, \<open>loadCodes\<close>
  stores the list and builds one group per type that occurs in it. The groups are in
  ascending order of type under the comparison the sort is given (\<open>localeCompare\<close>, any
  comparison that orders strings; lexicographic for the code-unit comparison), each
  is selected, and the codes of a group are the codes of its type in the order
  fetched, repetitions included. When the fetched codes are pairwise different, the
  codes of each group are so too and no code appears in two groups. A response that
  is not a success makes \<open>loadCodes\<close> throw "Failed to load crime codes".
\<close>

theorem loadCodes_groups:
  "(fetch (baseApiUrl s @ ''/codes'') = Response True text data \<longrightarrow>
     (\<exists>gs. loadCodes localeCompare fetch s = Inr (s\<lparr>codes := data, incidentTypeGroups := gs\<rparr>)
        \<and> (consistent_compare localeCompare \<longrightarrow>
             sorted_wrt (\<lambda>a b. localeCompare (g_type a) (g_type b) \<le> 0) gs)
        \<and> distinct (map g_type gs)
        \<and> set (map g_type gs) = c_type ` set data
        \<and> (\<forall>g \<in> set gs. g_selected g
              \<and> g_codes g = map c_code (filter (\<lambda>c. c_type c = g_type g) data))
        \<and> (distinct (map c_code data) \<longrightarrow>
             (\<forall>g \<in> set gs. distinct (g_codes g))
             \<and> (\<forall>g \<in> set gs. \<forall>h \<in> set gs. g_type g \<noteq> g_type h \<longrightarrow>
                   set (g_codes g) \<inter> set (g_codes h) = {}))))
   \<and> (fetch (baseApiUrl s @ ''/codes'') = Response False text data \<longrightarrow>
        loadCodes localeCompare fetch s = Inl (Error ''Failed to load crime codes''))"
proof (intro conjI impI)
  assume ok: "fetch (baseApiUrl s @ ''/codes'') = Response True text data"
  let ?gs = "sort_by (\<lambda>a b. localeCompare (g_type a) (g_type b)) (build_groups data)"
  have inv: "groups_inv data (build_groups data)"
    by (rule groups_inv_build)
  have r: "loadCodes localeCompare fetch s = Inr (s\<lparr>codes := data, incidentTypeGroups := ?gs\<rparr>)"
    using ok by (simp add: loadCodes_def)
  have srt: "consistent_compare localeCompare \<longrightarrow>
             sorted_wrt (\<lambda>a b. localeCompare (g_type a) (g_type b) \<le> 0) ?gs"
    by (rule impI) (rule sorted_groups)
  have dis: "distinct (map g_type ?gs)"
    using inv by (simp add: groups_inv_def)
  have tys: "set (map g_type ?gs) = c_type ` set data"
    using inv by (simp add: groups_inv_def)
  have cds: "\<forall>g \<in> set ?gs. g_selected g
              \<and> g_codes g = map c_code (filter (\<lambda>c. c_type c = g_type g) data)"
    using inv by (simp add: groups_inv_def)
  have dst: "distinct (map c_code data) \<longrightarrow>
             (\<forall>g \<in> set ?gs. distinct (g_codes g))
             \<and> (\<forall>g \<in> set ?gs. \<forall>h \<in> set ?gs. g_type g \<noteq> g_type h \<longrightarrow>
                   set (g_codes g) \<inter> set (g_codes h) = {})"
  proof (intro impI conjI ballI)
    fix g assume d: "distinct (map c_code data)" and g: "g \<in> set ?gs"
    from g cds have "g_codes g = map c_code (filter (\<lambda>c. c_type c = g_type g) data)"
      by blast
    with d show "distinct (g_codes g)"
      by (simp add: distinct_map_filter)
  next
    fix g h
    assume d: "distinct (map c_code data)" and g: "g \<in> set ?gs" and h: "h \<in> set ?gs"
      and ne: "g_type g \<noteq> g_type h"
    from g cds have cg: "g_codes g = map c_code (filter (\<lambda>c. c_type c = g_type g) data)"
      by blast
    from h cds have ch: "g_codes h = map c_code (filter (\<lambda>c. c_type c = g_type h) data)"
      by blast
    show "set (g_codes g) \<inter> set (g_codes h) = {}"
      unfolding cg ch using d ne by (rule codes_disjoint)
  qed
  show "\<exists>gs. loadCodes localeCompare fetch s = Inr (s\<lparr>codes := data, incidentTypeGroups := gs\<rparr>)
        \<and> (consistent_compare localeCompare \<longrightarrow>
             sorted_wrt (\<lambda>a b. localeCompare (g_type a) (g_type b) \<le> 0) gs)
        \<and> distinct (map g_type gs)
        \<and> set (map g_type gs) = c_type ` set data
        \<and> (\<forall>g \<in> set gs. g_selected g
              \<and> g_codes g = map c_code (filter (\<lambda>c. c_type c = g_type g) data))
        \<and> (distinct (map c_code data) \<longrightarrow>
             (\<forall>g \<in> set gs. distinct (g_codes g))
             \<and> (\<forall>g \<in> set gs. \<forall>h \<in> set gs. g_type g \<noteq> g_type h \<longrightarrow>
                   set (g_codes g) \<inter> set (g_codes h) = {}))"
    by (rule exI [of _ ?gs]) (intro conjI r srt dis tys cds dst)
next
  assume "fetch (baseApiUrl s @ ''/codes'') = Response False text data"
  then show "loadCodes localeCompare fetch s = Inl (Error ''Failed to load crime codes'')"
    by (simp add: loadCodes_def)
qed

text \<open>The scenario of the specification: Theft 1, Theft 2, Assault 3.\<close>

theorem loadCodes_groups_witness:
  "consistent_compare codeUnitCompare
   \<and> distinct (map c_code example_codes)
   \<and> server_codes example_codes (baseApiUrl started_state @ ''/codes'')
       = Response True '''' example_codes
   \<and> map_sum id incidentTypeGroups
         (loadCodes codeUnitCompare (server_codes example_codes) started_state)
       = Inr [\<lparr>g_type = ''Assault'', g_codes = [3], g_selected = True\<rparr>,
              \<lparr>g_type = ''Theft'', g_codes = [1, 2], g_selected = True\<rparr>]
   \<and> sorted_wrt (\<lambda>a b. codeUnitCompare (g_type a) (g_type b) \<le> 0)
         [\<lparr>g_type = ''Assault'', g_codes = [3], g_selected = True\<rparr>,
          \<lparr>g_type = ''Theft'', g_codes = [1, 2], g_selected = True\<rparr>]"
proof -
  have ok: "server_codes example_codes (baseApiUrl started_state @ ''/codes'')
       = Response True '''' example_codes"
    by (simp add: server_codes_def)
  have ev: "map_sum id incidentTypeGroups
         (loadCodes codeUnitCompare (server_codes example_codes) started_state)
       = Inr [\<lparr>g_type = ''Assault'', g_codes = [3], g_selected = True\<rparr>,
              \<lparr>g_type = ''Theft'', g_codes = [1, 2], g_selected = True\<rparr>]"
    by code_simp
  from loadCodes_groups
         [of "server_codes example_codes" started_state "''''" example_codes codeUnitCompare,
          THEN conjunct1, THEN mp, OF ok]
  obtain gs where
    r: "loadCodes codeUnitCompare (server_codes example_codes) started_state
          = Inr (started_state\<lparr>codes := example_codes, incidentTypeGroups := gs\<rparr>)" and
    srt: "consistent_compare codeUnitCompare \<longrightarrow>
            sorted_wrt (\<lambda>a b. codeUnitCompare (g_type a) (g_type b) \<le> 0) gs"
    by (elim exE conjE) (rule that)
  from r ev have "gs = [\<lparr>g_type = ''Assault'', g_codes = [3], g_selected = True\<rparr>,
              \<lparr>g_type = ''Theft'', g_codes = [1, 2], g_selected = True\<rparr>]"
    by simp
  with srt consistent_codeUnitCompare
  have "sorted_wrt (\<lambda>a b. codeUnitCompare (g_type a) (g_type b) \<le> 0)
         [\<lparr>g_type = ''Assault'', g_codes = [3], g_selected = True\<rparr>,
          \<lparr>g_type = ''Theft'', g_codes = [1, 2], g_selected = True\<rparr>]"
    by blast
  moreover have "distinct (map c_code example_codes)"
    by code_simp
  ultimately show ?thesis
    using consistent_codeUnitCompare ok ev by (intro conjI)
qed

text \<open>A list in which code 1 comes twice as Theft and once as Assault: the Theft group
  holds it twice, and it appears in both groups.\<close>

theorem loadCodes_groups_counterexample:
  "map_sum id incidentTypeGroups
       (loadCodes codeUnitCompare (server_codes duplicated_codes) started_state)
     = Inr [\<lparr>g_type = ''Assault'', g_codes = [1], g_selected = True\<rparr>,
            \<lparr>g_type = ''Theft'', g_codes = [1, 1], g_selected = True\<rparr>]"
  by code_simp

section \<open>Normalising a block address\<close>


lemma digit_not_space: "isDigit c \<Longrightarrow> \<not> isSpace c"
  by (auto simp: isDigit_def isSpace_def)

lemma x_not_digit: "\<not> isDigit (CHR ''x'')" "\<not> isDigit (CHR ''X'')"
  by (simp_all add: isDigit_def)

lemma digit_not_X: "isDigit c \<Longrightarrow> c \<noteq> CHR ''X''"
  using x_not_digit by blast

lemma trim_id:
  assumes "s \<noteq> []" and "\<not> isSpace (hd s)" and "\<not> isSpace (last s)"
  shows "trim s = s"
proof -
  from assms have 1: "dropWhile isSpace s = s"
    by (cases s) simp_all
  from assms have "rev s \<noteq> []" and "\<not> isSpace (hd (rev s))"
    by (simp_all add: hd_rev)
  then have 2: "dropWhile isSpace (rev s) = rev s"
    by (cases "rev s") simp_all
  show ?thesis
    by (simp add: trim_def 1 2)
qed

lemma replace_char_absent:
  assumes "a \<notin> set s"
  shows "replace_char a b s = s"
  using assms by (induction s) auto

lemma replace_char_last:
  assumes "a \<notin> set s"
  shows "replace_char a b (s @ [a]) = s @ b"
  using assms by (induction s) auto

lemma match_house_number_shape:
  assumes ds: "ds \<noteq> []" "\<forall>c \<in> set ds. isDigit c"
    and x: "x = CHR ''x'' \<or> x = CHR ''X''"
    and ws: "ws \<noteq> []" "\<forall>c \<in> set ws. isSpace c"
    and rest: "rest \<noteq> []" "\<not> isSpace (hd rest)"
  shows "match_house_number (ds @ [x] @ ws @ rest) =
           (if list_ex isLineTerminator rest then None else Some (ds @ [x], rest))"
proof -
  from x have nd: "\<not> isDigit x"
    using x_not_digit by blast
  have t1: "takeWhile isDigit (ds @ [x] @ ws @ rest) = ds"
    using ds nd by (simp add: takeWhile_append2)
  have d1: "dropWhile isDigit (ds @ [x] @ ws @ rest) = x # ws @ rest"
    using ds nd by (simp add: dropWhile_append2)
  from rest obtain r rs where r: "rest = r # rs" "\<not> isSpace r"
    by (cases rest) simp_all
  have t2: "takeWhile isSpace (ws @ rest) = ws"
    using ws r by (simp add: takeWhile_append2)
  have d2: "dropWhile isSpace (ws @ rest) = rest"
    using ws r by (simp add: dropWhile_append2)
  show ?thesis
    unfolding match_house_number_def Let_def t1 d1
    using ds x ws by (auto simp: t2 d2)
qed

lemma normalize_house_number:
  assumes ds: "ds \<noteq> []" "\<forall>c \<in> set ds. isDigit c"
    and x: "x = CHR ''x'' \<or> x = CHR ''X''"
    and ws: "ws \<noteq> []" "\<forall>c \<in> set ws. isSpace c"
    and rest: "rest \<noteq> []" "\<not> isSpace (hd rest)" "\<not> isSpace (last rest)"
  shows "normalizeBlockAddress (ds @ [x] @ ws @ rest) =
           (if list_ex isLineTerminator rest then ds @ [x] @ ws @ rest
            else ds @ (if x = CHR ''X'' then ''0'' else [x]) @ '' '' @ rest)
           @ '', Saint Paul, MN''"
proof -
  let ?b = "ds @ [x] @ ws @ rest"
  from ds have "\<not> isSpace (hd ?b)"
    by (cases ds) (simp_all add: digit_not_space)
  moreover from rest have "\<not> isSpace (last ?b)"
    by simp
  ultimately have tr: "trim ?b = ?b"
    by (intro trim_id) simp_all
  have m: "match_house_number ?b =
           (if list_ex isLineTerminator rest then None else Some (ds @ [x], rest))"
    using ds x ws rest(1,2) by (rule match_house_number_shape)
  from ds have nX: "CHR ''X'' \<notin> set ds"
    using digit_not_X by blast
  have rp: "replace_char (CHR ''X'') ''0'' (ds @ [x]) = ds @ (if x = CHR ''X'' then ''0'' else [x])"
  proof (cases "x = CHR ''X''")
    case True
    then show ?thesis using nX by (simp add: replace_char_last)
  next
    case False
    with nX have "CHR ''X'' \<notin> set (ds @ [x])" by simp
    then have "replace_char (CHR ''X'') ''0'' (ds @ [x]) = ds @ [x]"
      by (rule replace_char_absent)
    with False show ?thesis by simp
  qed
  show ?thesis
    unfolding normalizeBlockAddress_def Let_def tr m
    by (simp add: rp)
qed

lemma normalize_trimmed:
  assumes t: "trim b = ds @ [x] @ ws @ rest"
    and ds: "ds \<noteq> []" "\<forall>c \<in> set ds. isDigit c"
    and x: "x = CHR ''x'' \<or> x = CHR ''X''"
    and ws: "ws \<noteq> []" "\<forall>c \<in> set ws. isSpace c"
    and rest: "rest \<noteq> []" "\<not> isSpace (hd rest)"
  shows "normalizeBlockAddress b =
           (if list_ex isLineTerminator rest then ds @ [x] @ ws @ rest
            else ds @ (if x = CHR ''X'' then ''0'' else [x]) @ '' '' @ rest)
           @ '', Saint Paul, MN''"
proof -
  have m: "match_house_number (ds @ [x] @ ws @ rest) =
           (if list_ex isLineTerminator rest then None else Some (ds @ [x], rest))"
    using ds x ws rest by (rule match_house_number_shape)
  from ds have nX: "CHR ''X'' \<notin> set ds"
    using digit_not_X by blast
  have rp: "replace_char (CHR ''X'') ''0'' (ds @ [x]) = ds @ (if x = CHR ''X'' then ''0'' else [x])"
  proof (cases "x = CHR ''X''")
    case True
    then show ?thesis using nX by (simp add: replace_char_last)
  next
    case False
    with nX have "CHR ''X'' \<notin> set (ds @ [x])" by simp
    then have "replace_char (CHR ''X'') ''0'' (ds @ [x]) = ds @ [x]"
      by (rule replace_char_absent)
    with False show ?thesis by simp
  qed
  show ?thesis
    unfolding normalizeBlockAddress_def Let_def t m
    by (simp add: rp)
qed

lemma normalize_no_match:
  assumes "match_house_number (trim b) = None"
  shows "normalizeBlockAddress b = trim b @ '', Saint Paul, MN''"
  using assms by (simp add: normalizeBlockAddress_def)

text \<open>
  C10, as the code has it. For every block whose trimmed text begins with a
  house-number token of digits and a lowercase x, followed by white space and more
  text, \<open>normalizeBlockAddress\<close> leaves the x as it is, since the replacement looks for
  the capital letter only. When the text after the white space has no line break, the
  pattern matches the token (it ignores case) and the result is the token, one blank,
  that text and the locality suffix: "98x UNIVERSITY AV W, Saint Paul, MN" for
  "98x UNIVERSITY AV W", not "980 ...". When it has a line break the pattern does not
  match, and the result is the trimmed block with the suffix. With a capital X in the
  place of the x, and no line break, the X becomes 0.
\<close>

theorem normalizeBlockAddress_lowercase_x:
  assumes "trim block0 = ds @ ''x'' @ ws @ rest"
    and "ds \<noteq> []" and "\<forall>c \<in> set ds. isDigit c"
    and "ws \<noteq> []" and "\<forall>c \<in> set ws. isSpace c"
    and "rest \<noteq> []" and "\<not> isSpace (hd rest)"
  shows "normalizeBlockAddress block0
           = ds @ ''x'' @ (if list_ex isLineTerminator rest then ws else '' '') @ rest
               @ '', Saint Paul, MN''
       \<and> (\<not> list_ex isLineTerminator rest \<longrightarrow>
            match_house_number (trim block0) = Some (ds @ ''x'', rest))
       \<and> (list_ex isLineTerminator rest \<longrightarrow> match_house_number (trim block0) = None)
       \<and> (\<forall>block1. trim block1 = ds @ ''X'' @ ws @ rest
                     \<and> \<not> list_ex isLineTerminator rest \<longrightarrow>
              normalizeBlockAddress block1 = ds @ ''0'' @ '' '' @ rest @ '', Saint Paul, MN'')"
proof (intro conjI allI impI)
  have t: "trim block0 = ds @ [CHR ''x''] @ ws @ rest"
    using assms(1) by simp
  have m: "match_house_number (trim block0) =
           (if list_ex isLineTerminator rest then None else Some (ds @ ''x'', rest))"
    unfolding t using match_house_number_shape [of ds "CHR ''x''" ws rest] assms by simp
  show "normalizeBlockAddress block0
           = ds @ ''x'' @ (if list_ex isLineTerminator rest then ws else '' '') @ rest
               @ '', Saint Paul, MN''"
    using normalize_trimmed [OF t] assms by simp
  show "match_house_number (trim block0) = Some (ds @ ''x'', rest)"
    if "\<not> list_ex isLineTerminator rest"
    using m that by simp
  show "match_house_number (trim block0) = None" if "list_ex isLineTerminator rest"
    using m that by simp
  show "normalizeBlockAddress block1 = ds @ ''0'' @ '' '' @ rest @ '', Saint Paul, MN''"
    if h: "trim block1 = ds @ ''X'' @ ws @ rest \<and> \<not> list_ex isLineTerminator rest"
    for block1
  proof -
    from h have t1: "trim block1 = ds @ [CHR ''X''] @ ws @ rest" by simp
    from normalize_trimmed [OF t1] assms h show ?thesis by simp
  qed
qed

text \<open>The theorem at a block with blanks around it and three blanks after the token,
  at the block of the example, and at a block with a line feed in its text.\<close>

theorem normalizeBlockAddress_lowercase_x_witness:
  "trim ''  98x   UNIVERSITY AV W '' = ''98'' @ ''x'' @ ''   '' @ ''UNIVERSITY AV W''
   \<and> normalizeBlockAddress ''  98x   UNIVERSITY AV W '' = ''98x UNIVERSITY AV W, Saint Paul, MN''
   \<and> match_house_number (trim ''  98x   UNIVERSITY AV W '') = Some (''98x'', ''UNIVERSITY AV W'')
   \<and> normalizeBlockAddress ''98x UNIVERSITY AV W'' = ''98x UNIVERSITY AV W, Saint Paul, MN''
   \<and> normalizeBlockAddress ''98X UNIVERSITY AV W'' = ''980 UNIVERSITY AV W, Saint Paul, MN''
   \<and> list_ex isLineTerminator (''UNIVERSITY'' @ [CHR 0x0A] @ ''AV W'')
   \<and> normalizeBlockAddress (''98x UNIVERSITY'' @ [CHR 0x0A] @ ''AV W'')
       = ''98x UNIVERSITY'' @ [CHR 0x0A] @ ''AV W, Saint Paul, MN''"
proof -
  have n1: "''98'' \<noteq> []" and n2: "''   '' \<noteq> []" and n2': "'' '' \<noteq> []"
    and n3: "''UNIVERSITY AV W'' \<noteq> []"
    and n3': "''UNIVERSITY'' @ [CHR 0x0A] @ ''AV W'' \<noteq> []"
    by simp_all
  have d: "\<forall>c \<in> set ''98''. isDigit c"
    by (simp add: isDigit_def)
  have w: "\<forall>c \<in> set ''   ''. isSpace c" and w': "\<forall>c \<in> set '' ''. isSpace c"
    by (simp_all add: isSpace_def)
  have h: "\<not> isSpace (hd ''UNIVERSITY AV W'')"
    and h': "\<not> isSpace (hd (''UNIVERSITY'' @ [CHR 0x0A] @ ''AV W''))"
    by (simp_all add: isSpace_def)
  have l: "\<not> list_ex isLineTerminator ''UNIVERSITY AV W''"
    and l': "list_ex isLineTerminator (''UNIVERSITY'' @ [CHR 0x0A] @ ''AV W'')"
    by (simp_all add: isLineTerminator_def)
  have t: "trim ''  98x   UNIVERSITY AV W '' = ''98'' @ ''x'' @ ''   '' @ ''UNIVERSITY AV W''"
    by code_simp
  have t1: "trim ''98x UNIVERSITY AV W'' = ''98'' @ ''x'' @ '' '' @ ''UNIVERSITY AV W''"
    by code_simp
  have t2: "trim ''98X UNIVERSITY AV W'' = ''98'' @ ''X'' @ '' '' @ ''UNIVERSITY AV W''"
    by code_simp
  have t3: "trim (''98x UNIVERSITY'' @ [CHR 0x0A] @ ''AV W'')
              = ''98'' @ ''x'' @ '' '' @ (''UNIVERSITY'' @ [CHR 0x0A] @ ''AV W'')"
    by code_simp
  note a = normalizeBlockAddress_lowercase_x [OF t n1 d n2 w n3 h]
  note b = normalizeBlockAddress_lowercase_x [OF t1 n1 d n2' w' n3 h]
  note c = normalizeBlockAddress_lowercase_x [OF t3 n1 d n2' w' n3' h']
  from a l have "normalizeBlockAddress ''  98x   UNIVERSITY AV W ''
                   = ''98x UNIVERSITY AV W, Saint Paul, MN''"
    and "match_house_number (trim ''  98x   UNIVERSITY AV W '')
                   = Some (''98x'', ''UNIVERSITY AV W'')"
    by simp_all
  moreover from b l have "normalizeBlockAddress ''98x UNIVERSITY AV W''
                   = ''98x UNIVERSITY AV W, Saint Paul, MN''"
    by simp
  moreover from b [THEN conjunct2, THEN conjunct2, THEN conjunct2, rule_format,
                   OF conjI [OF t2 l]]
  have "normalizeBlockAddress ''98X UNIVERSITY AV W'' = ''980 UNIVERSITY AV W, Saint Paul, MN''"
    by simp
  moreover from c [THEN conjunct1] l'
  have "normalizeBlockAddress (''98x UNIVERSITY'' @ [CHR 0x0A] @ ''AV W'')
       = ''98x UNIVERSITY'' @ [CHR 0x0A] @ ''AV W, Saint Paul, MN''"
    by simp
  ultimately show ?thesis using t l' by (intro conjI)
qed

text \<open>With a line feed in the text after the token the pattern does not match, since
  its dot stops at a line break and its end is the end of the whole string.\<close>

theorem normalizeBlockAddress_lowercase_x_counterexample:
  "trim (''98x UNIVERSITY'' @ [CHR 0x0A] @ ''AV W'') = ''98x UNIVERSITY'' @ [CHR 0x0A] @ ''AV W''
   \<and> match_house_number (trim (''98x UNIVERSITY'' @ [CHR 0x0A] @ ''AV W'')) = None"
  by code_simp

section \<open>The geocode cache\<close>

lemma clampLatLng_within:
  "(lat0 \<noteq> NaN \<longrightarrow>
       js_le (lat bounds_se) (lat (clampLatLng lat0 lng0)) \<and>
       js_le (lat (clampLatLng lat0 lng0)) (lat bounds_nw))
   \<and> (lng0 \<noteq> NaN \<longrightarrow>
       js_le (lng bounds_nw) (lng (clampLatLng lat0 lng0)) \<and>
       js_le (lng (clampLatLng lat0 lng0)) (lng bounds_se))"
  by (cases lat0; cases lng0) (simp_all add: clampLatLng_def bounds_nw_def bounds_se_def)

lemma geocodeBlock_searches:
  assumes "block0 \<noteq> []" and "geocodeCache s block0 = None" and "\<not> inherited block0"
  shows "geocodeBlock inherited fetch block0 s =
     (let req = GET_search (normalizeBlockAddress block0) in
      case fetch req of
        Rejected msg \<Rightarrow> (Null, s, [req])
      | Response ok body data \<Rightarrow>
          if \<not> ok then (Null, s, [req])
          else case data of
            NotAnArray \<Rightarrow> (Null, s, [req])
          | Results [] \<Rightarrow> (Null, s, [req])
          | Results ((lat0, lng0) # others) \<Rightarrow>
              (Coordinate (clampLatLng lat0 lng0),
               s\<lparr>geocodeCache := (geocodeCache s)(block0 \<mapsto> clampLatLng lat0 lng0)\<rparr>,
               [req]))"
  using assms
  by (simp add: geocodeBlock_def cache_read_def Let_def
      split: response.splits geo_json.splits list.splits)

text \<open>
  C6, as the code has it. For an empty block \<open>geocodeBlock\<close> returns no result and asks
  nothing. Otherwise it first reads the cache under the block string as given: a stored
  coordinate is returned without any search, and so is a member that the cache object
  inherits under that name (\<open>constructor\<close>, \<open>toString\<close>, ...), which is no coordinate.
  Only when the read finds nothing does it normalize the block and search once for the
  normalized text. Normalizing trims the block; a leading house-number token of digits
  and a capital X, followed by white space and text on the same line, becomes the
  digits, 0, one blank and that text; a block the pattern does not match stays as
  trimmed; the locality suffix is appended ("98X UNIVERSITY AV W" becomes
  "980 UNIVERSITY AV W, Saint Paul, MN"). A successful answer with at least one result
  is passed through \<open>clampLatLng\<close>, which puts every coordinate but NaN into the bounding
  box, returned, and stored under the block string as given; any other outcome returns
  no result and leaves the cache as it was, so the next lookup searches again.
\<close>

theorem geocodeBlock_cache:
  "(block0 = [] \<longrightarrow> geocodeBlock inherited fetch block0 s = (Null, s, []))
   \<and> (block0 \<noteq> [] \<and> geocodeCache s block0 = Some c \<longrightarrow>
        geocodeBlock inherited fetch block0 s = (Coordinate c, s, []))
   \<and> (block0 \<noteq> [] \<and> geocodeCache s block0 = None \<and> inherited block0 \<longrightarrow>
        geocodeBlock inherited fetch block0 s = (Inherited block0, s, []))
   \<and> (block0 \<noteq> [] \<and> geocodeCache s block0 = None \<and> \<not> inherited block0 \<longrightarrow>
        snd (snd (geocodeBlock inherited fetch block0 s))
          = [GET_search (normalizeBlockAddress block0)]
        \<and> (\<forall>body la lo others.
              fetch (GET_search (normalizeBlockAddress block0))
                = Response True body (Results ((la, lo) # others)) \<longrightarrow>
              geocodeBlock inherited fetch block0 s
                = (Coordinate (clampLatLng la lo),
                   s\<lparr>geocodeCache := (geocodeCache s)(block0 \<mapsto> clampLatLng la lo)\<rparr>,
                   [GET_search (normalizeBlockAddress block0)])
              \<and> (la \<noteq> NaN \<longrightarrow>
                   js_le (lat bounds_se) (lat (clampLatLng la lo))
                   \<and> js_le (lat (clampLatLng la lo)) (lat bounds_nw))
              \<and> (lo \<noteq> NaN \<longrightarrow>
                   js_le (lng bounds_nw) (lng (clampLatLng la lo))
                   \<and> js_le (lng (clampLatLng la lo)) (lng bounds_se)))
        \<and> ((\<nexists>body la lo others.
              fetch (GET_search (normalizeBlockAddress block0))
                = Response True body (Results ((la, lo) # others))) \<longrightarrow>
              fst (geocodeBlock inherited fetch block0 s) = Null
              \<and> fst (snd (geocodeBlock inherited fetch block0 s)) = s))
   \<and> (\<forall>ds ws rest.
          trim block0 = ds @ ''X'' @ ws @ rest
          \<and> ds \<noteq> [] \<and> (\<forall>c \<in> set ds. isDigit c)
          \<and> ws \<noteq> [] \<and> (\<forall>c \<in> set ws. isSpace c)
          \<and> rest \<noteq> [] \<and> \<not> isSpace (hd rest) \<and> \<not> list_ex isLineTerminator rest \<longrightarrow>
          normalizeBlockAddress block0 = ds @ ''0'' @ '' '' @ rest @ '', Saint Paul, MN'')
   \<and> (match_house_number (trim block0) = None \<longrightarrow>
        normalizeBlockAddress block0 = trim block0 @ '', Saint Paul, MN'')
   \<and> normalizeBlockAddress ''98X UNIVERSITY AV W'' = ''980 UNIVERSITY AV W, Saint Paul, MN''"
proof (intro conjI impI allI)
  show "geocodeBlock inherited fetch block0 s = (Null, s, [])" if "block0 = []"
    using that by (simp add: geocodeBlock_def)
  show "geocodeBlock inherited fetch block0 s = (Coordinate c, s, [])"
    if "block0 \<noteq> [] \<and> geocodeCache s block0 = Some c"
    using that by (simp add: geocodeBlock_def cache_read_def)
  show "geocodeBlock inherited fetch block0 s = (Inherited block0, s, [])"
    if "block0 \<noteq> [] \<and> geocodeCache s block0 = None \<and> inherited block0"
    using that by (simp add: geocodeBlock_def cache_read_def)
  show "normalizeBlockAddress ''98X UNIVERSITY AV W'' = ''980 UNIVERSITY AV W, Saint Paul, MN''"
    by code_simp
  show "normalizeBlockAddress block0 = trim block0 @ '', Saint Paul, MN''"
    if "match_house_number (trim block0) = None"
    using that by (rule normalize_no_match)
  show "normalizeBlockAddress block0 = ds @ ''0'' @ '' '' @ rest @ '', Saint Paul, MN''"
    if h: "trim block0 = ds @ ''X'' @ ws @ rest
          \<and> ds \<noteq> [] \<and> (\<forall>c \<in> set ds. isDigit c)
          \<and> ws \<noteq> [] \<and> (\<forall>c \<in> set ws. isSpace c)
          \<and> rest \<noteq> [] \<and> \<not> isSpace (hd rest) \<and> \<not> list_ex isLineTerminator rest"
    for ds ws rest
  proof -
    from h have t: "trim block0 = ds @ [CHR ''X''] @ ws @ rest" by simp
    from normalize_trimmed [OF t] h show ?thesis by simp
  qed
next
  assume a: "block0 \<noteq> [] \<and> geocodeCache s block0 = None \<and> \<not> inherited block0"
  then have g: "geocodeBlock inherited fetch block0 s =
     (let req = GET_search (normalizeBlockAddress block0) in
      case fetch req of
        Rejected msg \<Rightarrow> (Null, s, [req])
      | Response ok body data \<Rightarrow>
          if \<not> ok then (Null, s, [req])
          else case data of
            NotAnArray \<Rightarrow> (Null, s, [req])
          | Results [] \<Rightarrow> (Null, s, [req])
          | Results ((lat0, lng0) # others) \<Rightarrow>
              (Coordinate (clampLatLng lat0 lng0),
               s\<lparr>geocodeCache := (geocodeCache s)(block0 \<mapsto> clampLatLng lat0 lng0)\<rparr>,
               [req]))"
    by (simp add: geocodeBlock_searches)
  show "snd (snd (geocodeBlock inherited fetch block0 s))
          = [GET_search (normalizeBlockAddress block0)]"
    unfolding g by (simp add: Let_def split: response.splits geo_json.splits list.splits)
  show "geocodeBlock inherited fetch block0 s
                = (Coordinate (clampLatLng la lo),
                   s\<lparr>geocodeCache := (geocodeCache s)(block0 \<mapsto> clampLatLng la lo)\<rparr>,
                   [GET_search (normalizeBlockAddress block0)])"
    if "fetch (GET_search (normalizeBlockAddress block0))
                = Response True body (Results ((la, lo) # others))" for body la lo others
    unfolding g using that by (simp add: Let_def)
  show "js_le (lat bounds_se) (lat (clampLatLng la lo))" if "la \<noteq> NaN" for la lo
    using clampLatLng_within [of la lo] that by blast
  show "js_le (lat (clampLatLng la lo)) (lat bounds_nw)" if "la \<noteq> NaN" for la lo
    using clampLatLng_within [of la lo] that by blast
  show "js_le (lng bounds_nw) (lng (clampLatLng la lo))" if "lo \<noteq> NaN" for la lo
    using clampLatLng_within [of la lo] that by blast
  show "js_le (lng (clampLatLng la lo)) (lng bounds_se)" if "lo \<noteq> NaN" for la lo
    using clampLatLng_within [of la lo] that by blast
  assume n: "\<nexists>body la lo others.
              fetch (GET_search (normalizeBlockAddress block0))
                = Response True body (Results ((la, lo) # others))"
  show "fst (geocodeBlock inherited fetch block0 s) = Null"
    unfolding g using n
    by (auto simp: Let_def split: response.splits geo_json.splits list.splits)
  show "fst (snd (geocodeBlock inherited fetch block0 s)) = s"
    unfolding g using n
    by (auto simp: Let_def split: response.splits geo_json.splits list.splits)
qed

text \<open>A first lookup of "98X UNIVERSITY AV W" whose answer lies north of the box, one
  that finds nothing, one that finds the block in the cache, and a lookup of
  "toString"; and the normalization of the block with blanks added.\<close>

theorem geocodeBlock_cache_witness:
  "\<not> inherits_Object_prototype ''98X UNIVERSITY AV W''
   \<and> geocodeCache counted_state ''98X UNIVERSITY AV W'' = None
   \<and> geocodeBlock inherits_Object_prototype (server_geocode [(Fin 46, Fin (- 93.1))])
         ''98X UNIVERSITY AV W'' counted_state
       = (Coordinate \<lparr>lat = Fin 45.008206, lng = Fin (- 93.1)\<rparr>,
          counted_state\<lparr>geocodeCache := (geocodeCache counted_state)
             (''98X UNIVERSITY AV W'' \<mapsto> \<lparr>lat = Fin 45.008206, lng = Fin (- 93.1)\<rparr>)\<rparr>,
          [GET_search ''980 UNIVERSITY AV W, Saint Paul, MN''])
   \<and> fst (geocodeBlock inherits_Object_prototype (server_geocode [])
              ''98X UNIVERSITY AV W'' counted_state) = Null
   \<and> fst (snd (geocodeBlock inherits_Object_prototype (server_geocode [])
              ''98X UNIVERSITY AV W'' counted_state)) = counted_state
   \<and> geocodeBlock inherits_Object_prototype (server_geocode [(Fin 46, Fin (- 93.1))])
         ''98X UNIVERSITY AV W'' cached_block_state
       = (Coordinate \<lparr>lat = Fin 44.955, lng = Fin (- 93.15)\<rparr>, cached_block_state, [])
   \<and> inherits_Object_prototype ''toString''
   \<and> geocodeBlock inherits_Object_prototype (server_geocode [(Fin 46, Fin (- 93.1))])
         ''toString'' counted_state
       = (Inherited ''toString'', counted_state, [])
   \<and> normalizeBlockAddress '' 98X  UNIVERSITY AV W ''
       = ''980 UNIVERSITY AV W, Saint Paul, MN''"
proof -
  let ?i = inherits_Object_prototype
  let ?f = "server_geocode [(Fin 46, Fin (- 93.1))]"
  let ?b = "''98X UNIVERSITY AV W''"
  have ne: "?b \<noteq> []"
    by simp
  have ni: "\<not> ?i ?b"
    by code_simp
  have c: "geocodeCache counted_state ?b = None"
    by (simp add: counted_state_def example_state_def initial_state_def)
  have r: "?f (GET_search (normalizeBlockAddress ?b))
             = Response True '''' (Results ((Fin 46, Fin (- 93.1)) # []))"
    by (simp add: server_geocode_def)
  have n: "normalizeBlockAddress ?b = ''980 UNIVERSITY AV W, Saint Paul, MN''"
    by code_simp
  have k: "clampLatLng (Fin 46) (Fin (- 93.1)) = \<lparr>lat = Fin 45.008206, lng = Fin (- 93.1)\<rparr>"
    by (simp add: clampLatLng_def bounds_nw_def bounds_se_def)
  note t = geocodeBlock_cache [of ?b ?i ?f counted_state, THEN conjunct2, THEN conjunct2,
             THEN conjunct2, THEN conjunct1, THEN mp, OF conjI [OF ne conjI [OF c ni]]]
  from t [THEN conjunct2, THEN conjunct1, rule_format, OF r, THEN conjunct1]
  have g: "geocodeBlock ?i ?f ?b counted_state
       = (Coordinate \<lparr>lat = Fin 45.008206, lng = Fin (- 93.1)\<rparr>,
          counted_state\<lparr>geocodeCache := (geocodeCache counted_state)
             (?b \<mapsto> \<lparr>lat = Fin 45.008206, lng = Fin (- 93.1)\<rparr>)\<rparr>,
          [GET_search ''980 UNIVERSITY AV W, Saint Paul, MN''])"
    unfolding k n .
  have "\<nexists>body la lo others.
          server_geocode [] (GET_search (normalizeBlockAddress ?b))
            = Response True body (Results ((la, lo) # others))"
    by (simp add: server_geocode_def)
  with geocodeBlock_cache [of ?b ?i "server_geocode []" counted_state, THEN conjunct2,
         THEN conjunct2, THEN conjunct2, THEN conjunct1, THEN mp,
         OF conjI [OF ne conjI [OF c ni]], THEN conjunct2, THEN conjunct2]
  have f: "fst (geocodeBlock ?i (server_geocode []) ?b counted_state) = Null
           \<and> fst (snd (geocodeBlock ?i (server_geocode []) ?b counted_state)) = counted_state"
    by (rule mp)
  have cb: "geocodeCache cached_block_state ?b = Some \<lparr>lat = Fin 44.955, lng = Fin (- 93.15)\<rparr>"
    by (simp add: cached_block_state_def)
  note h = geocodeBlock_cache [of ?b ?i ?f cached_block_state, THEN conjunct2,
             THEN conjunct1, THEN mp, OF conjI [OF ne cb]]
  have ti: "?i ''toString''"
    by code_simp
  have tn: "''toString'' \<noteq> []"
    by simp
  have tc: "geocodeCache counted_state ''toString'' = None"
    by (simp add: counted_state_def example_state_def initial_state_def)
  note m = geocodeBlock_cache [of "''toString''" ?i ?f counted_state, THEN conjunct2,
             THEN conjunct2, THEN conjunct1, THEN mp, OF conjI [OF tn conjI [OF tc ti]]]
  have tr: "trim '' 98X  UNIVERSITY AV W '' = ''98'' @ ''X'' @ ''  '' @ ''UNIVERSITY AV W''"
    by code_simp
  have hyp: "trim '' 98X  UNIVERSITY AV W '' = ''98'' @ ''X'' @ ''  '' @ ''UNIVERSITY AV W''
          \<and> ''98'' \<noteq> [] \<and> (\<forall>c \<in> set ''98''. isDigit c)
          \<and> ''  '' \<noteq> [] \<and> (\<forall>c \<in> set ''  ''. isSpace c)
          \<and> ''UNIVERSITY AV W'' \<noteq> [] \<and> \<not> isSpace (hd ''UNIVERSITY AV W'')
          \<and> \<not> list_ex isLineTerminator ''UNIVERSITY AV W''"
    using tr by (simp add: isDigit_def isSpace_def isLineTerminator_def)
  from geocodeBlock_cache [of "'' 98X  UNIVERSITY AV W ''" ?i ?f counted_state,
         THEN conjunct2, THEN conjunct2, THEN conjunct2, THEN conjunct2, THEN conjunct1,
         rule_format, OF hyp]
  have nz: "normalizeBlockAddress '' 98X  UNIVERSITY AV W ''
              = ''980 UNIVERSITY AV W, Saint Paul, MN''"
    by simp
  from f have f1: "fst (geocodeBlock ?i (server_geocode []) ?b counted_state) = Null"
    and f2: "fst (snd (geocodeBlock ?i (server_geocode []) ?b counted_state)) = counted_state"
    by simp_all
  from ni c g f1 f2 h ti m nz show ?thesis
    by (intro conjI)
qed

text \<open>
  The cache is not asked about the normalized text. With the normalized text of the
  block already a key of the cache, the search is issued all the same; and with the
  block itself a key, whose normalized text is not one, no search is issued. A block
  named "constructor" is answered by the inherited member, without normalizing or
  searching. And an answer whose latitude does not parse is stored with the latitude
  NaN, which is not in the box.
\<close>

theorem geocodeBlock_cache_counterexample:
  "geocodeCache cached_normalized_state (normalizeBlockAddress ''98X UNIVERSITY AV W'')
     = Some \<lparr>lat = Fin 44.955, lng = Fin (- 93.15)\<rparr>
   \<and> snd (snd (geocodeBlock inherits_Object_prototype (server_geocode [])
                 ''98X UNIVERSITY AV W'' cached_normalized_state))
       = [GET_search ''980 UNIVERSITY AV W, Saint Paul, MN'']
   \<and> geocodeCache cached_block_state (normalizeBlockAddress ''98X UNIVERSITY AV W'') = None
   \<and> snd (snd (geocodeBlock inherits_Object_prototype (server_geocode [])
                 ''98X UNIVERSITY AV W'' cached_block_state)) = []
   \<and> fst (geocodeBlock inherits_Object_prototype (server_geocode [])
             ''98X UNIVERSITY AV W'' cached_block_state)
       = Coordinate \<lparr>lat = Fin 44.955, lng = Fin (- 93.15)\<rparr>
   \<and> fst (geocodeBlock inherits_Object_prototype (server_geocode [(Fin 44.95, Fin (- 93.1))])
             ''constructor'' counted_state)
       = Inherited ''constructor''
   \<and> snd (snd (geocodeBlock inherits_Object_prototype
                 (server_geocode [(Fin 44.95, Fin (- 93.1))]) ''constructor'' counted_state))
       = []
   \<and> fst (geocodeBlock inherits_Object_prototype (server_geocode [(NaN, Fin (- 93.1))])
             ''98X UNIVERSITY AV W'' counted_state)
       = Coordinate \<lparr>lat = NaN, lng = Fin (- 93.1)\<rparr>"
proof -
  have n: "normalizeBlockAddress ''98X UNIVERSITY AV W'' = ''980 UNIVERSITY AV W, Saint Paul, MN''"
    by code_simp
  have i: "\<not> inherits_Object_prototype ''98X UNIVERSITY AV W''"
    and j: "inherits_Object_prototype ''constructor''"
    by code_simp+
  have e: "geocodeCache counted_state = Map.empty"
    by (simp add: counted_state_def example_state_def initial_state_def)
  show ?thesis
    unfolding n
    by (simp add: geocodeBlock_def cache_read_def cached_normalized_state_def
        cached_block_state_def e server_geocode_def n i j clampLatLng_def
        bounds_nw_def bounds_se_def Let_def)
qed

section \<open>Validation and submission of a new incident\<close>







text \<open>
  The code and the neighborhood of the form are chosen from lists that hold only what
  was loaded, and loading follows the URL dialog: until a base URL is set the code
  field is empty. The start-up state has this property and a submission changes neither
  the base URL nor the form.
\<close>

lemma trim_Nil [simp]: "trim [] = []"
  by (simp add: trim_def)

lemma no_option_chosen_initial:
  "baseApiUrl initial_state = [] \<longrightarrow> newIncident initial_state f_code = []"
  by (simp add: initial_state_def)

lemma submitNewIncident_keeps_form:
  "baseApiUrl (fst (submitNewIncident toNumber put fetch s)) = baseApiUrl s
   \<and> newIncident (fst (submitNewIncident toNumber put fetch s)) = newIncident s"
  by (simp add: submitNewIncident_def fetchIncidents_def Let_def
      updateNeighborhoodCountsFromIncidents_def split: response.splits prod.splits)



end
